theory Spec2Isabelle
  imports
    Main
    "HOL-Library.Char_ord"
    "HOL-Library.List_Lexorder"
    "HOL-Library.Product_Lexorder"
    "HOL-Library.Multiset"
    "HOL-Library.AList"
begin

section \<open>The OPA bundle compiler of the policy service\<close>

text \<open>
  A shallow embedding of package \<open>bundle\<close> (the file that declares \<open>opaData.save\<close>,
  \<open>generateOPARoles\<close>, \<open>generateOPARoleBindings\<close>, \<open>generateOPAExemptionURLs\<close>,
  \<open>GenerateOPABundle\<close> and \<open>GetRevision\<close>) and of the handler \<open>DownloadBundle\<close>.

  Go strings are byte strings compared bytewise by \<open><\<close>; \<^typ>\<open>string\<close> with the orders
  of \<open>Char_ord\<close> and \<open>List_Lexorder\<close> is the same order.
\<close>

subsection \<open>Constants\<close>

definition MethodGet :: string where "MethodGet = ''GET''"
definition MethodPost :: string where "MethodPost = ''POST''"
definition MethodPut :: string where "MethodPut = ''PUT''"
definition MethodPatch :: string where "MethodPatch = ''PATCH''"
definition MethodDelete :: string where "MethodDelete = ''DELETE''"

definition AllMethods :: "string list" where
  "AllMethods = [MethodGet, MethodPost, MethodPut, MethodPatch, MethodDelete]"

text \<open>
  Modelled from the spec: \<open>models.MethodAll\<close>, a constant of package \<open>models\<close>, which
  the spec writes as the verb \<open>*\<close>.
\<close>

definition MethodAll :: string where "MethodAll = ''*''"

definition manifestPath :: string where "manifestPath = ''.manifest''"
definition policyPath :: string where "policyPath = ''authz.rego''"
definition rolesPath :: string where "rolesPath = ''roles/data.json''"
definition rolebindingsPath :: string where "rolebindingsPath = ''bindings/data.json''"
definition exemptionPath :: string where "exemptionPath = ''exemptions/data.json''"

subsection \<open>The stored entities (package \<open>models\<close>)\<close>

text \<open>
  Package \<open>models\<close> is used by the compiler through the fields below only. The compiler
  compares a rule's kind with \<open>models.KindResource\<close> and a subject's kind with
  \<open>models.UserKind\<close>; every other kind takes the other branch.
\<close>

datatype RuleKind = KindResource | KindEndpoint | KindOther string

datatype SubjectKind = UserKind | OtherSubjectKind string

record Rule =
  Verbs :: "string list"
  Resources :: "string list"
  Kind :: RuleKind

record Role =
  Name :: string
  Namespace :: string
  Rules :: "Rule list"

record Subject =
  Kind :: SubjectKind
  UID :: string

record RoleRef =
  Name :: string
  Namespace :: string

record RoleBinding =
  Namespace :: string
  Subjects :: "Subject list"
  RoleRef :: RoleRef

subsection \<open>The compiled entities\<close>

record rule =
  Method :: string
  Endpoint :: string

record role =
  Name :: string
  Namespace :: string
  Rules :: "rule list"

record roleRef =
  Name :: string
  Namespace :: string

record binding =
  Namespace :: string
  RoleRefs :: "roleRef list"

record roleBinding =
  UID :: string
  Bindings :: "binding list"

record opaRoles =
  Roles :: "role list"

record opaRoleBindings =
  RoleBindings :: "roleBinding list"

record opaManifest =
  Revision :: string
  Roots :: "string list"

text \<open>
  \<open>exemptionURLs\<close> and \<open>policyRule\<close> are declared beside the URL tables; the compiler
  appends rules to the three lists of the first and reads \<open>Methods\<close> and \<open>Endpoints\<close>
  of the second.
\<close>

record exemptionURLs =
  Public :: "rule list"
  Privileged :: "rule list"
  Registered :: "rule list"

record policyRule =
  Methods :: "string list"
  Endpoints :: "string list"

subsection \<open>The comparators\<close>

definition rules_Less :: "rule \<Rightarrow> rule \<Rightarrow> bool" where
  "rules_Less a b =
     (if Endpoint a = Endpoint b then Method a < Method b else Endpoint a < Endpoint b)"

definition roles_Less :: "role \<Rightarrow> role \<Rightarrow> bool" where
  "roles_Less a b =
     (if role.Namespace a = role.Namespace b then role.Name a < role.Name b
      else role.Namespace a < role.Namespace b)"

definition bindings_Less :: "binding \<Rightarrow> binding \<Rightarrow> bool" where
  "bindings_Less a b = (binding.Namespace a < binding.Namespace b)"

definition roleRefs_Less :: "roleRef \<Rightarrow> roleRef \<Rightarrow> bool" where
  "roleRefs_Less a b =
     (if roleRef.Namespace a = roleRef.Namespace b then roleRef.Name a < roleRef.Name b
      else roleRef.Namespace a < roleRef.Namespace b)"

definition roleBindings_Less :: "roleBinding \<Rightarrow> roleBinding \<Rightarrow> bool" where
  "roleBindings_Less a b = (roleBinding.UID a < roleBinding.UID b)"

subsection \<open>\<open>sort.Sort\<close>\<close>

text \<open>
  \<open>sort.Sort\<close> orders a slice in place with the \<open>Less\<close> of its type and is not
  stable. On a slice of at most six elements every version of the library runs its
  insertion sort alone: element after element is moved to the left while it is \<open>Less\<close>
  than its left neighbour. The elements to its left are sorted by then, so it stops
  in front of the first of them that it is \<open>Less\<close> than: that is where \<open>insert_Less\<close>
  puts it. \<open>sort_Sort\<close> is this insertion sort, on lists of any length.
  Where \<open>Less\<close> compares every field of the elements (\<open>rules\<close>, \<open>roleRefs\<close>) or the
  keys compared are distinct (\<open>bindings\<close>, \<open>roleBindings\<close>, built from the keys of a map),
  there is one sorted arrangement only, so any correct sorting algorithm returns what
  \<open>sort_Sort\<close> returns (\<open>sorted_arrangement_unique\<close> below). For \<open>roles\<close> that compare
  equal and differ in their rules, and more than six roles, the library may order the
  equal ones differently.
\<close>

fun insert_Less :: "('a \<Rightarrow> 'a \<Rightarrow> bool) \<Rightarrow> 'a \<Rightarrow> 'a list \<Rightarrow> 'a list" where
  "insert_Less lt x [] = [x]"
| "insert_Less lt x (y # ys) =
     (if lt x y then x # y # ys else y # insert_Less lt x ys)"

definition sort_Sort :: "('a \<Rightarrow> 'a \<Rightarrow> bool) \<Rightarrow> 'a list \<Rightarrow> 'a list" where
  "sort_Sort lt xs = foldl (\<lambda>pre x. insert_Less lt x pre) [] xs"

text \<open>The keys that the comparators order.\<close>

definition rule_key :: "rule \<Rightarrow> string \<times> string" where
  "rule_key r = (Endpoint r, Method r)"

definition role_key :: "role \<Rightarrow> string \<times> string" where
  "role_key r = (role.Namespace r, role.Name r)"

definition roleRef_key :: "roleRef \<Rightarrow> string \<times> string" where
  "roleRef_key r = (roleRef.Namespace r, roleRef.Name r)"

subsection \<open>The Rule Expansion Table\<close>

text \<open>
  \<open>getResourceActionMappings\<close> and the method \<open>GetRules\<close> of its result are declared in
  another file of the package. The three nested \<open>range\<close> loops of
  \<open>generateOPAExemptionURLs\<close> fix the shape of the table: a collection of collections of
  rule slices. The functions below take the table builder and \<open>GetRules\<close> as parameters
  \<open>getMappings\<close> and \<open>GetRules\<close>; the keys and the type of a policy stay type variables.
\<close>

type_synonym ('r, 'a) resourceActionMappings = "('r \<times> ('a \<times> rule list) list) list"

definition tableRules :: "('r, 'a) resourceActionMappings \<Rightarrow> rule list" where
  "tableRules mappings =
     foldl (\<lambda>acc (res, resourceMappings).
              foldl (\<lambda>acc (act, rs). foldl (\<lambda>acc r. acc @ [r]) acc rs) acc resourceMappings)
           [] mappings"

subsection \<open>\<open>generateOPARoles\<close>\<close>

text \<open>
  The elements of \<open>ro.Rules\<close> are pointers, as every slice of this package holds
  pointers: the assignment \<open>r.Verbs = AllMethods\<close> writes into the stored rule. Each
  function returns what it appends together with the rule, or the role, as the call
  leaves it. Writing the expansion a second time changes nothing (\<open>ruleRules_idem\<close>),
  so a rule reached through two pointers is left as the model leaves it.
\<close>

definition setVerbs :: "Rule \<Rightarrow> Rule" where
  "setVerbs r =
     (if length (Verbs r) = 1 \<and> Verbs r ! 0 = MethodAll then r\<lparr>Verbs := AllMethods\<rparr> else r)"

definition endpointRules :: "string list \<Rightarrow> string list \<Rightarrow> rule list" where
  "endpointRules verbs resources =
     foldl (\<lambda>acc v. foldl (\<lambda>acc endpoint. acc @ [\<lparr>Method = v, Endpoint = endpoint\<rparr>]) acc resources)
           [] verbs"

definition ruleRules ::
  "(string \<Rightarrow> string list \<Rightarrow> rule list) \<Rightarrow> Rule \<Rightarrow> rule list \<times> Rule" where
  "ruleRules getRules r =
     (if Rule.Kind r = KindResource
      then (foldl (\<lambda>acc res. acc @ getRules res (Verbs r)) [] (Resources r), r)
      else (let r' = setVerbs r in (endpointRules (Verbs r') (Resources r'), r')))"

definition compileRole ::
  "(string \<Rightarrow> string list \<Rightarrow> rule list) \<Rightarrow> Role \<Rightarrow> role \<times> Role" where
  "compileRole getRules ro =
     (let (rs, rules') =
            foldl (\<lambda>(acc, seen) r. let (new, r') = ruleRules getRules r in (acc @ new, seen @ [r']))
                  ([], []) (Role.Rules ro)
      in (\<lparr>role.Name = Role.Name ro, role.Namespace = Role.Namespace ro,
           role.Rules = sort_Sort rules_Less rs\<rparr>,
          ro\<lparr>Role.Rules := rules'\<rparr>))"

definition generateOPARoles ::
  "('p list \<Rightarrow> 'm) \<Rightarrow> ('m \<Rightarrow> string \<Rightarrow> string list \<Rightarrow> rule list) \<Rightarrow>
   Role list \<Rightarrow> 'p list \<Rightarrow> opaRoles \<times> Role list" where
  "generateOPARoles getMappings GetRules roles policies =
     (let resourceMappings = getMappings policies;
          (compiled, roles') =
            foldl (\<lambda>(acc, seen) ro.
                     let (opaRole, ro') = compileRole (GetRules resourceMappings) ro
                     in (acc @ [opaRole], seen @ [ro']))
                  ([], []) roles
      in (\<lparr>Roles = sort_Sort roles_Less compiled\<rparr>, roles'))"

subsection \<open>\<open>generateOPARoleBindings\<close>\<close>

text \<open>
  \<open>userRoleMap\<close> is a Go map of maps. It is modelled by association lists with distinct
  keys, a new key going to the end. Go ranges over a map in an order it does not fix,
  the model in the order of the list: the slices filled by the two \<open>range\<close> loops are
  sorted on the map's keys before they are used, which makes the order of the range
  irrelevant (\<open>sorted_arrangement_unique\<close>). The fields \<open>Name\<close> and \<open>Namespace\<close> of
  \<open>rb.RoleRef\<close> are read as values.
\<close>

type_synonym userRoleMap = "(string \<times> (string \<times> roleRef list) list) list"

definition addSubject :: "RoleBinding \<Rightarrow> userRoleMap \<Rightarrow> Subject \<Rightarrow> userRoleMap" where
  "addSubject rb userRoleMap s =
     (if Subject.Kind s = UserKind
      then (let nb = (case map_of userRoleMap (Subject.UID s) of None \<Rightarrow> [] | Some nb \<Rightarrow> nb);
                refs = (case map_of nb (RoleBinding.Namespace rb) of None \<Rightarrow> [] | Some refs \<Rightarrow> refs)
            in AList.update (Subject.UID s)
                 (AList.update (RoleBinding.Namespace rb)
                    (refs @ [\<lparr>roleRef.Name = RoleRef.Name (RoleRef rb),
                              roleRef.Namespace = RoleRef.Namespace (RoleRef rb)\<rparr>])
                    nb)
                 userRoleMap)
      else userRoleMap)"

definition collectUserRoles :: "userRoleMap \<Rightarrow> RoleBinding list \<Rightarrow> userRoleMap" where
  "collectUserRoles userRoleMap rbs =
     foldl (\<lambda>m rb. foldl (addSubject rb) m (Subjects rb)) userRoleMap rbs"

definition bindingsOf :: "(string \<times> roleRef list) list \<Rightarrow> binding list" where
  "bindingsOf nb =
     foldl (\<lambda>bindingsData (n, b).
              bindingsData @ [\<lparr>binding.Namespace = n, RoleRefs = sort_Sort roleRefs_Less b\<rparr>])
           [] nb"

definition roleBindingsOf :: "userRoleMap \<Rightarrow> roleBinding list" where
  "roleBindingsOf userRoleMap =
     foldl (\<lambda>acc (u, nb).
              acc @ [\<lparr>roleBinding.UID = u, Bindings = sort_Sort bindings_Less (bindingsOf nb)\<rparr>])
           [] userRoleMap"

definition generateOPARoleBindings :: "RoleBinding list \<Rightarrow> opaRoleBindings" where
  "generateOPARoleBindings rbs =
     (let userRoleMap = collectUserRoles [] rbs
      in \<lparr>RoleBindings = sort_Sort roleBindings_Less (roleBindingsOf userRoleMap)\<rparr>)"

subsection \<open>\<open>generateOPAExemptionURLs\<close>\<close>

text \<open>
  The tables \<open>publicURLs\<close>, \<open>systemAdminURLs\<close> and \<open>adminURLs\<close> are package variables
  declared in another file; they are parameters here. The loop over a table writes
  \<open>AllMethods\<close> into an entry whose methods are the wildcard alone, as \<open>setVerbs\<close> does
  for a rule; a later compile expands the written entry to the same rules
  (\<open>urlRules_setMethods\<close>), so the tables are not part of the state.
\<close>

definition setMethods :: "policyRule \<Rightarrow> policyRule" where
  "setMethods r =
     (if length (Methods r) = 1 \<and> Methods r ! 0 = MethodAll then r\<lparr>Methods := AllMethods\<rparr> else r)"

definition urlRules :: "policyRule list \<Rightarrow> rule list" where
  "urlRules urls =
     foldl (\<lambda>acc r. let r' = setMethods r in acc @ endpointRules (Methods r') (Endpoints r'))
           [] urls"

definition generateOPAExemptionURLs ::
  "('p list \<Rightarrow> ('r, 'a) resourceActionMappings) \<Rightarrow>
   policyRule list \<Rightarrow> policyRule list \<Rightarrow> policyRule list \<Rightarrow> 'p list \<Rightarrow> exemptionURLs" where
  "generateOPAExemptionURLs getMappings publicURLs systemAdminURLs adminURLs policies =
     (let public = sort_Sort rules_Less (urlRules publicURLs);
          privileged = sort_Sort rules_Less (urlRules systemAdminURLs);
          resourceMappings = getMappings policies;
          registered = tableRules resourceMappings @ urlRules adminURLs
      in \<lparr>Public = public, Privileged = privileged,
          Registered = sort_Sort rules_Less registered\<rparr>)"

subsection \<open>The bundle: \<open>save\<close>, \<open>GenerateOPABundle\<close>, \<open>GetRevision\<close>\<close>

text \<open>
  The file system (\<open>afero\<close>), the JSON codec, the archiver \<open>fsutil.Tar\<close>, \<open>filepath\<close>
  and \<open>config.DataPath\<close> are libraries or other packages. They are the fields of an
  environment; each fallible operation returns its error as a value. An operation
  that works in place returns the object as it leaves it, with or without an error.
  \<open>'fs\<close> is a file system, \<open>'c\<close> the contents of a file, \<open>'d\<close> the data directory on disk.
\<close>

datatype error = Error string

datatype panic = NilPointerDereference

datatype opaJson =
    Manifest opaManifest
  | RolesData opaRoles
  | RoleBindingsData opaRoleBindings
  | ExemptionsData exemptionURLs

datatype 'c fileData = Bytes 'c | Value opaJson

record 'c opaDataSpec =
  data :: "'c fileData"
  path :: string

record ('fs, 'c, 'd) env =
  NewMemMapFs :: 'fs
  MkdirAll :: "'fs \<Rightarrow> string \<Rightarrow> error option \<times> 'fs"
  WriteFile :: "'fs \<Rightarrow> string \<Rightarrow> 'c \<Rightarrow> error option \<times> 'fs"
  ReadFile :: "'fs \<Rightarrow> string \<Rightarrow> error + 'c"
  MarshalIndent :: "opaJson \<Rightarrow> error + 'c"
  Unmarshal :: "'c \<Rightarrow> error + opaManifest"
  Tar :: "'fs \<Rightarrow> string \<Rightarrow> 'd \<Rightarrow> error option \<times> 'd"
  Dir :: "string \<Rightarrow> string"
  Join :: "string \<Rightarrow> string \<Rightarrow> string"
  DataPath :: string

text \<open>
  The state of the process: the package variable \<open>cacheFS\<close>, \<open>None\<close> while it is the
  nil interface it is declared as, and the data directory.
\<close>

record ('fs, 'd) state =
  cacheFS :: "'fs option"
  disk :: 'd

fun writeFiles ::
  "('fs, 'c, 'd) env \<Rightarrow> 'c opaDataSpec list \<Rightarrow> 'fs \<Rightarrow> error option \<times> 'fs" where
  "writeFiles env [] fs = (None, fs)"
| "writeFiles env (file # files) fs =
     (case (case data file of Bytes c \<Rightarrow> Inr c | Value c \<Rightarrow> MarshalIndent env c) of
        Inl err \<Rightarrow> (Some err, fs)
      | Inr content \<Rightarrow>
          (case MkdirAll env fs (Dir env (path file)) of
             (Some err, fs1) \<Rightarrow> (Some err, fs1)
           | (None, fs1) \<Rightarrow>
               (case WriteFile env fs1 (path file) content of
                  (Some err, fs2) \<Rightarrow> (Some err, fs2)
                | (None, fs2) \<Rightarrow> writeFiles env files fs2)))"

text \<open>
  \<open>save\<close> assigns the new file system to \<open>cacheFS\<close> before it writes the first file,
  and the loop writes through that variable: whatever the loop has written when
  \<open>save\<close> returns is what \<open>cacheFS\<close> holds, on every path.
\<close>

definition save ::
  "('fs, 'c, 'd) env \<Rightarrow> 'c opaDataSpec list \<Rightarrow> ('fs, 'd) state \<Rightarrow> error option \<times> ('fs, 'd) state" where
  "save env files s =
     (case writeFiles env files (NewMemMapFs env) of
        (Some err, fs) \<Rightarrow> (Some err, s\<lparr>cacheFS := Some fs\<rparr>)
      | (None, fs) \<Rightarrow>
          (let tarball = ''bundle.tar.gz'';
               path = Join env (DataPath env) tarball;
               (err, d) = Tar env fs path (disk s)
           in (err, s\<lparr>cacheFS := Some fs, disk := d\<rparr>)))"

text \<open>\<open>uuid.New().String()\<close> is the argument \<open>revision\<close>, the text \<open>authz\<close> the argument \<open>authz\<close>.\<close>

definition generateOPAManifest :: "string \<Rightarrow> opaManifest" where
  "generateOPAManifest revision = \<lparr>Revision = revision, Roots = ['''']\<rparr>"

definition generateOPAPolicy :: "'c \<Rightarrow> 'c" where
  "generateOPAPolicy authz = authz"

text \<open>
  The three \<open>List\<close> calls of the store give a list and an error each; the error is
  logged and the list is used as it came. \<open>bundleFiles\<close> is the literal that
  \<open>GenerateOPABundle\<close> assigns to \<open>data\<close>.
\<close>

definition bundleFiles ::
  "('p list \<Rightarrow> ('r, 'a) resourceActionMappings) \<Rightarrow>
   (('r, 'a) resourceActionMappings \<Rightarrow> string \<Rightarrow> string list \<Rightarrow> rule list) \<Rightarrow>
   policyRule list \<Rightarrow> policyRule list \<Rightarrow> policyRule list \<Rightarrow> 'c \<Rightarrow> string \<Rightarrow>
   Role list \<Rightarrow> RoleBinding list \<Rightarrow> 'p list \<Rightarrow> 'c opaDataSpec list" where
  "bundleFiles getMappings GetRules publicURLs systemAdminURLs adminURLs authz revision rs bs ps =
     [\<lparr>data = Value (Manifest (generateOPAManifest revision)), path = manifestPath\<rparr>,
      \<lparr>data = Bytes (generateOPAPolicy authz), path = policyPath\<rparr>,
      \<lparr>data = Value (RolesData (fst (generateOPARoles getMappings GetRules rs ps))),
       path = rolesPath\<rparr>,
      \<lparr>data = Value (RoleBindingsData (generateOPARoleBindings bs)), path = rolebindingsPath\<rparr>,
      \<lparr>data = Value (ExemptionsData
                (generateOPAExemptionURLs getMappings publicURLs systemAdminURLs adminURLs ps)),
       path = exemptionPath\<rparr>]"

definition GenerateOPABundle ::
  "('fs, 'c, 'd) env \<Rightarrow> ('p list \<Rightarrow> ('r, 'a) resourceActionMappings) \<Rightarrow>
   (('r, 'a) resourceActionMappings \<Rightarrow> string \<Rightarrow> string list \<Rightarrow> rule list) \<Rightarrow>
   policyRule list \<Rightarrow> policyRule list \<Rightarrow> policyRule list \<Rightarrow> 'c \<Rightarrow> string \<Rightarrow>
   Role list \<times> error option \<Rightarrow> RoleBinding list \<times> error option \<Rightarrow> 'p list \<times> error option \<Rightarrow>
   ('fs, 'd) state \<Rightarrow> error option \<times> ('fs, 'd) state" where
  "GenerateOPABundle env getMappings GetRules publicURLs systemAdminURLs adminURLs authz revision
     roleList roleBindingList policyList s =
     (let (rs, err) = roleList;
          (bs, err) = roleBindingList;
          (ps, err) = policyList;
          files = bundleFiles getMappings GetRules publicURLs systemAdminURLs adminURLs
                    authz revision rs bs ps
      in save env files s)"

text \<open>
  \<open>afero.ReadFile\<close> calls \<open>Open\<close> on the file system it is given; on the nil interface
  that call panics.
\<close>

definition GetRevision :: "('fs, 'c, 'd) env \<Rightarrow> ('fs, 'd) state \<Rightarrow> panic + string" where
  "GetRevision env s =
     (case cacheFS s of
        None \<Rightarrow> Inl NilPointerDereference
      | Some fs \<Rightarrow>
          (case ReadFile env fs manifestPath of
             Inl err \<Rightarrow> Inr ''''
           | Inr content \<Rightarrow>
               (case Unmarshal env content of
                  Inl err \<Rightarrow> Inr ''''
                | Inr mf \<Rightarrow> Inr (Revision mf))))"

subsection \<open>The handler \<open>DownloadBundle\<close>\<close>

text \<open>
  The part of a \<open>gin.Context\<close> that the handler uses: the request's headers and path
  parameters (\<open>GetHeader\<close> and \<open>Param\<close> give the empty string for a missing one), the
  status and the headers of the response, and the file whose bytes are its body, if
  it has one.
\<close>

record Context =
  requestHeader :: "string \<Rightarrow> string"
  params :: "string \<Rightarrow> string"
  status :: nat
  header :: "string \<rightharpoonup> string"
  servedFile :: "string option"

definition GetHeader :: "Context \<Rightarrow> string \<Rightarrow> string" where
  "GetHeader c key = requestHeader c key"

definition Param :: "Context \<Rightarrow> string \<Rightarrow> string" where
  "Param c key = params c key"

definition Status :: "Context \<Rightarrow> nat \<Rightarrow> Context" where
  "Status c code = c\<lparr>status := code\<rparr>"

definition Header :: "Context \<Rightarrow> string \<Rightarrow> string \<Rightarrow> Context" where
  "Header c key v =
     (if v = '''' then c\<lparr>header := (header c)(key := None)\<rparr>
      else c\<lparr>header := (header c)(key \<mapsto> v)\<rparr>)"

text \<open>
  \<open>c.File\<close> hands the response to the file server of the library, \<open>http.ServeFile\<close>,
  which reads the request, the headers set so far and the data directory, and writes
  the status, further headers and the body itself. The file server is the parameter
  \<open>ServeFile\<close>.
\<close>

definition File ::
  "('d \<Rightarrow> Context \<Rightarrow> string \<Rightarrow> Context) \<Rightarrow> 'd \<Rightarrow> Context \<Rightarrow> string \<Rightarrow> Context" where
  "File ServeFile d c filepath = ServeFile d c filepath"

definition DownloadBundle ::
  "('fs, 'c, 'd) env \<Rightarrow> ('d \<Rightarrow> Context \<Rightarrow> string \<Rightarrow> Context) \<Rightarrow>
   ('fs, 'd) state \<Rightarrow> Context \<Rightarrow> panic + Context" where
  "DownloadBundle env ServeFile s c =
     (case GetRevision env s of
        Inl p \<Rightarrow> Inl p
      | Inr revision \<Rightarrow>
          (let matching = GetHeader c ''If-None-Match''
           in if revision \<noteq> '''' \<and> revision = matching then Inr (Status c 304)
              else (let c1 = Header c ''Content-Type'' ''application/gzip'';
                        c2 = (if revision \<noteq> '''' then Header c1 ''Etag'' revision else c1)
                    in Inr (File ServeFile (disk s) c2
                              (Join env (DataPath env) (Param c2 ''name''))))))"

subsection \<open>The Rule Expansion Table, from the spec\<close>

text \<open>
  Modelled from the spec: the stored \<open>Policy\<close> of package \<open>models\<close>. A policy names a
  resource and lists rules, each a verb with its endpoints; it declares which concrete
  rules exist for the resource. An endpoint of a verb is held as the concrete
  (method, endpoint) rule that it stands for; where the verb itself is the method,
  every such rule carries the verb as its method.
\<close>

record PolicyVerb =
  Verb :: string
  Concrete :: "rule list"

record Policy =
  Resource :: string
  PolicyVerbs :: "PolicyVerb list"

text \<open>
  Modelled from the spec: \<open>getResourceActionMappings\<close>, which builds the Rule Expansion
  Table from the full policy list. The table maps a resource name and a verb to the
  concrete rules registered under them; a policy adds its rules to those already
  registered. The table is a map of maps, as the loops of \<open>generateOPAExemptionURLs\<close>
  range over it, modelled by association lists with distinct keys.
\<close>

definition registerVerb ::
  "string \<Rightarrow> (string, string) resourceActionMappings \<Rightarrow> PolicyVerb \<Rightarrow>
   (string, string) resourceActionMappings" where
  "registerVerb res mappings v =
     (let m = (case map_of mappings res of None \<Rightarrow> [] | Some m \<Rightarrow> m);
          rs = (case map_of m (Verb v) of None \<Rightarrow> [] | Some rs \<Rightarrow> rs)
      in AList.update res (AList.update (Verb v) (rs @ Concrete v) m) mappings)"

definition registerPolicies ::
  "(string, string) resourceActionMappings \<Rightarrow> Policy list \<Rightarrow>
   (string, string) resourceActionMappings" where
  "registerPolicies mappings policies =
     foldl (\<lambda>data p. foldl (registerVerb (Resource p)) data (PolicyVerbs p)) mappings policies"

definition getResourceActionMappings ::
  "Policy list \<Rightarrow> (string, string) resourceActionMappings" where
  "getResourceActionMappings policies = registerPolicies [] policies"

text \<open>
  Modelled from the spec: the method \<open>GetRules\<close> of the table. For a resource name and a
  set of requested verbs it returns the concrete rules registered under that resource
  for those verbs; a resource that the table does not map gives no rule.
\<close>

definition resourceActionMappings_GetRules ::
  "(string, string) resourceActionMappings \<Rightarrow> string \<Rightarrow> string list \<Rightarrow> rule list" where
  "resourceActionMappings_GetRules mappings res verbs =
     (case map_of mappings res of
        None \<Rightarrow> []
      | Some m \<Rightarrow>
          concat (map (\<lambda>verb. case map_of m verb of None \<Rightarrow> [] | Some rs \<Rightarrow> rs)
                      (remdups verbs)))"

subsection \<open>Sample inputs\<close>

text \<open>A table builder and a \<open>GetRules\<close> that know no resource.\<close>

definition noMappings :: "unit list \<Rightarrow> (string, string) resourceActionMappings" where
  "noMappings policies = []"

definition noRules ::
  "(string, string) resourceActionMappings \<Rightarrow> string \<Rightarrow> string list \<Rightarrow> rule list" where
  "noRules mappings res verbs = []"

text \<open>The role of the spec's end-to-end scenario.\<close>

definition viewer :: Role where
  "viewer = \<lparr>Role.Name = ''viewer'', Role.Namespace = ''proj1'',
             Role.Rules = [\<lparr>Verbs = [''*''], Resources = [''/api/builds''], Kind = KindEndpoint\<rparr>]\<rparr>"

text \<open>A role that grants \<open>GET\<close> on an endpoint twice, once by name and once by the wildcard.\<close>

definition overlapping :: Role where
  "overlapping = \<lparr>Role.Name = ''dev'', Role.Namespace = ''proj1'',
     Role.Rules = [\<lparr>Verbs = [''GET''], Resources = [''/api/builds''], Kind = KindEndpoint\<rparr>,
                   \<lparr>Verbs = [''*''], Resources = [''/api/builds''], Kind = KindEndpoint\<rparr>]\<rparr>"

definition overlappingCompiled :: role where
  "overlappingCompiled = \<lparr>role.Name = ''dev'', role.Namespace = ''proj1'',
     role.Rules = [\<lparr>Method = ''DELETE'', Endpoint = ''/api/builds''\<rparr>,
                   \<lparr>Method = ''GET'', Endpoint = ''/api/builds''\<rparr>,
                   \<lparr>Method = ''GET'', Endpoint = ''/api/builds''\<rparr>,
                   \<lparr>Method = ''PATCH'', Endpoint = ''/api/builds''\<rparr>,
                   \<lparr>Method = ''POST'', Endpoint = ''/api/builds''\<rparr>,
                   \<lparr>Method = ''PUT'', Endpoint = ''/api/builds''\<rparr>]\<rparr>"

text \<open>A public URL table with one entry, and no other table.\<close>

definition healthURLs :: "policyRule list" where
  "healthURLs = [\<lparr>Methods = [''GET''], Endpoints = [''/api/health'']\<rparr>]"

text \<open>A rule and a URL entry whose verbs hold the wildcard and another verb.\<close>

definition starGet :: Role where
  "starGet = \<lparr>Role.Name = ''ops'', Role.Namespace = ''proj1'',
     Role.Rules = [\<lparr>Verbs = [''*'', ''GET''], Resources = [''/api/builds''], Kind = KindEndpoint\<rparr>]\<rparr>"

definition starGetURLs :: "policyRule list" where
  "starGetURLs = [\<lparr>Methods = [''*'', ''GET''], Endpoints = [''/api/builds'']\<rparr>]"

text \<open>
  An environment for the examples. Its file system is an association list from paths
  to contents, its disk one from paths to archived file systems; no operation fails.
  The codec writes a manifest as its revision after a fixed prefix and reads it back.
  \<open>fullDiskEnv\<close> differs in the archiver, which fails and leaves the disk as it is.
\<close>

type_synonym memFs = "(string \<times> string) list"

type_synonym memDisk = "(string \<times> memFs) list"

definition memMarshal :: "opaJson \<Rightarrow> error + string" where
  "memMarshal c = (case c of Manifest mf \<Rightarrow> Inr (''revision='' @ Revision mf) | _ \<Rightarrow> Inr ''{}'')"

definition memUnmarshal :: "string \<Rightarrow> error + opaManifest" where
  "memUnmarshal content =
     (if take 9 content = ''revision=''
      then Inr \<lparr>Revision = drop 9 content, Roots = ['''']\<rparr>
      else Inl (Error ''invalid character''))"

definition memEnv :: "(memFs, string, memDisk) env" where
  "memEnv =
     \<lparr>NewMemMapFs = [],
      MkdirAll = (\<lambda>fs dir. (None, fs)),
      WriteFile = (\<lambda>fs name content. (None, AList.update name content fs)),
      ReadFile = (\<lambda>fs name. case map_of fs name of
                                None \<Rightarrow> Inl (Error ''file does not exist'')
                              | Some content \<Rightarrow> Inr content),
      MarshalIndent = memMarshal,
      Unmarshal = memUnmarshal,
      Tar = (\<lambda>fs name d. (None, AList.update name fs d)),
      Dir = (\<lambda>name. name),
      Join = (\<lambda>dir name. dir @ ''/'' @ name),
      DataPath = ''/data''\<rparr>"

definition fullDiskEnv :: "(memFs, string, memDisk) env" where
  "fullDiskEnv = memEnv\<lparr>Tar := (\<lambda>fs name d. (Some (Error ''no space left on device''), d))\<rparr>"

text \<open>The state before any compile, and the state after a first compile with revision \<open>r1\<close>.\<close>

definition initial :: "(memFs, memDisk) state" where
  "initial = \<lparr>cacheFS = None, disk = []\<rparr>"

definition published :: "(memFs, memDisk) state" where
  "published =
     snd (GenerateOPABundle memEnv noMappings noRules [] [] [] ''package authz'' ''r1''
            ([], None) ([], None) ([], None) initial)"

text \<open>Requests for \<open>bundle.tar.gz\<close>: without \<open>If-None-Match\<close>, and with a given value of it.\<close>

definition plainRequest :: Context where
  "plainRequest =
     \<lparr>requestHeader = (\<lambda>key. ''''),
      params = (\<lambda>key. if key = ''name'' then ''bundle.tar.gz'' else ''''),
      status = 200, header = Map.empty, servedFile = None\<rparr>"

definition conditionalRequest :: "string \<Rightarrow> Context" where
  "conditionalRequest token =
     plainRequest\<lparr>requestHeader := (\<lambda>key. if key = ''If-None-Match'' then token else '''')\<rparr>"

text \<open>
  A file server for the examples, after \<open>http.ServeFile\<close> as far as the examples go: no
  such file is answered 404; \<open>If-None-Match: *\<close> on a file that exists is answered 304
  without a body and without \<open>Content-Type\<close>; any other request of the examples is
  answered 200 with the file. The headers that the library adds are left out.
\<close>

definition memServeFile :: "memDisk \<Rightarrow> Context \<Rightarrow> string \<Rightarrow> Context" where
  "memServeFile d c name =
     (case map_of d name of
        None \<Rightarrow> c\<lparr>status := 404\<rparr>
      | Some fs \<Rightarrow>
          if requestHeader c ''If-None-Match'' = ''*''
          then c\<lparr>status := 304, header := (header c)(''Content-Type'' := None)\<rparr>
          else c\<lparr>status := 200, servedFile := Some name\<rparr>)"

text \<open>
  Environments in which one step of writing \<open>roles/data.json\<close> fails: the codec, the
  creation of the directory, the write.
\<close>

definition noCodecEnv :: "(memFs, string, memDisk) env" where
  "noCodecEnv =
     memEnv\<lparr>MarshalIndent :=
              (\<lambda>c. case c of RolesData x \<Rightarrow> Inl (Error ''json: unsupported value'')
                         | _ \<Rightarrow> memMarshal c)\<rparr>"

definition noDirEnv :: "(memFs, string, memDisk) env" where
  "noDirEnv =
     memEnv\<lparr>MkdirAll :=
              (\<lambda>fs dir. if dir = ''roles/data.json'' then (Some (Error ''mkdir failed''), fs)
                        else (None, fs))\<rparr>"

definition noWriteEnv :: "(memFs, string, memDisk) env" where
  "noWriteEnv =
     memEnv\<lparr>WriteFile :=
              (\<lambda>fs name content.
                 if name = ''roles/data.json'' then (Some (Error ''write failed''), fs)
                 else (None, AList.update name content fs))\<rparr>"

text \<open>Two roles with the same name and namespace and different rules, and a role of resource kind.\<close>

definition devRead :: Role where
  "devRead = \<lparr>Role.Name = ''dev'', Role.Namespace = ''proj1'',
     Role.Rules = [\<lparr>Verbs = [''GET''], Resources = [''/api/builds''], Kind = KindEndpoint\<rparr>]\<rparr>"

definition devWrite :: Role where
  "devWrite = \<lparr>Role.Name = ''dev'', Role.Namespace = ''proj1'',
     Role.Rules = [\<lparr>Verbs = [''POST''], Resources = [''/api/builds''], Kind = KindEndpoint\<rparr>]\<rparr>"

definition tester :: Role where
  "tester = \<lparr>Role.Name = ''tester'', Role.Namespace = ''proj1'',
     Role.Rules = [\<lparr>Verbs = [''get_test''], Resources = [''Test''], Kind = KindResource\<rparr>]\<rparr>"

text \<open>
  A table builder and a \<open>GetRules\<close> for policies given as (resource, action, rule): the
  table holds one entry per policy, in the order of the policies.
\<close>

type_synonym samplePolicy = "string \<times> string \<times> rule"

definition sampleMappings :: "samplePolicy list \<Rightarrow> (string, string) resourceActionMappings" where
  "sampleMappings policies = map (\<lambda>(res, act, r). (res, [(act, [r])])) policies"

definition sampleGetRules ::
  "(string, string) resourceActionMappings \<Rightarrow> string \<Rightarrow> string list \<Rightarrow> rule list" where
  "sampleGetRules mappings res verbs =
     concat (map (\<lambda>(res', m). if res' = res
                               then concat (map (\<lambda>(act, rs). if act \<in> set verbs then rs else []) m)
                               else [])
                 mappings)"

definition testPolicies :: "samplePolicy list" where
  "testPolicies =
     [(''Test'', ''get_test'', \<lparr>Method = ''GET'', Endpoint = ''/api/tests''\<rparr>),
      (''Test'', ''get_test'', \<lparr>Method = ''GET'', Endpoint = ''/api/reports''\<rparr>)]"

text \<open>A binding with a group and a user as subjects, and a binding with a group only.\<close>

definition mixedBinding :: RoleBinding where
  "mixedBinding =
     \<lparr>RoleBinding.Namespace = ''proj1'',
      Subjects = [\<lparr>Subject.Kind = OtherSubjectKind ''Group'', UID = ''g1''\<rparr>,
                  \<lparr>Subject.Kind = UserKind, UID = ''u1''\<rparr>],
      RoleRef = \<lparr>RoleRef.Name = ''viewer'', RoleRef.Namespace = ''proj1''\<rparr>\<rparr>"

definition groupBinding :: RoleBinding where
  "groupBinding =
     \<lparr>RoleBinding.Namespace = ''proj2'',
      Subjects = [\<lparr>Subject.Kind = OtherSubjectKind ''Group'', UID = ''g2''\<rparr>],
      RoleRef = \<lparr>RoleRef.Name = ''admin'', RoleRef.Namespace = ''proj2''\<rparr>\<rparr>"

text \<open>Two policies on the resource of the role \<open>tester\<close>, under the same verb.\<close>

definition storedPolicies :: "Policy list" where
  "storedPolicies =
     [\<lparr>Resource = ''Test'',
       PolicyVerbs = [\<lparr>Verb = ''get_test'',
                       Concrete = [\<lparr>Method = ''GET'', Endpoint = ''/api/tests''\<rparr>]\<rparr>]\<rparr>,
      \<lparr>Resource = ''Test'',
       PolicyVerbs = [\<lparr>Verb = ''get_test'',
                       Concrete = [\<lparr>Method = ''GET'', Endpoint = ''/api/reports''\<rparr>]\<rparr>,
                      \<lparr>Verb = ''run_test'',
                       Concrete = [\<lparr>Method = ''POST'', Endpoint = ''/api/tests''\<rparr>]\<rparr>]\<rparr>]"

subsection \<open>Notions used in the proofs\<close>

text \<open>
  The role reference that a binding grants, and the references that a binding grants to
  user \<open>u\<close> in namespace \<open>n\<close>: one for each of its subjects of kind \<open>User\<close> with that UID,
  if the binding is of that namespace.
\<close>

definition refOf :: "RoleBinding \<Rightarrow> roleRef" where
  "refOf rb = \<lparr>roleRef.Name = RoleRef.Name (RoleRef rb),
              roleRef.Namespace = RoleRef.Namespace (RoleRef rb)\<rparr>"

definition grants :: "RoleBinding \<Rightarrow> string \<Rightarrow> string \<Rightarrow> roleRef list" where
  "grants rb u n =
     map (\<lambda>s. refOf rb)
       (filter (\<lambda>s. Subject.Kind s = UserKind \<and> Subject.UID s = u \<and> RoleBinding.Namespace rb = n)
          (Subjects rb))"

text \<open>
  What \<open>userRoleMap\<close> holds for a user and a namespace, and the shape that every map built
  by \<open>collectUserRoles\<close> has: distinct keys at both levels, no user without a namespace
  and no namespace without a reference.
\<close>

definition refsOf :: "userRoleMap \<Rightarrow> string \<Rightarrow> string \<Rightarrow> roleRef list" where
  "refsOf m u n =
     (case map_of m u of
        None \<Rightarrow> []
      | Some nb \<Rightarrow> (case map_of nb n of None \<Rightarrow> [] | Some refs \<Rightarrow> refs))"

definition wellFormed :: "userRoleMap \<Rightarrow> bool" where
  "wellFormed m \<longleftrightarrow>
     distinct (map fst m) \<and>
     (\<forall>(u, nb) \<in> set m. nb \<noteq> [] \<and> distinct (map fst nb) \<and> (\<forall>(n, refs) \<in> set nb. refs \<noteq> []))"

text \<open>The entries that the two \<open>range\<close> loops of \<open>generateOPARoleBindings\<close> append.\<close>

definition renderBinding :: "string \<times> roleRef list \<Rightarrow> binding" where
  "renderBinding p = \<lparr>binding.Namespace = fst p, RoleRefs = sort_Sort roleRefs_Less (snd p)\<rparr>"

definition renderRoleBinding :: "string \<times> (string \<times> roleRef list) list \<Rightarrow> roleBinding" where
  "renderRoleBinding p =
     \<lparr>roleBinding.UID = fst p, Bindings = sort_Sort bindings_Less (bindingsOf (snd p))\<rparr>"

text \<open>What the Rule Expansion Table holds for a resource and a verb.\<close>

definition rulesAt ::
  "(string, string) resourceActionMappings \<Rightarrow> string \<Rightarrow> string \<Rightarrow> rule list" where
  "rulesAt mappings res verb =
     (case map_of mappings res of
        None \<Rightarrow> []
      | Some m \<Rightarrow> (case map_of m verb of None \<Rightarrow> [] | Some rs \<Rightarrow> rs))"

text \<open>
  The rules that a policy registers for a resource and a verb, and all the rules that it
  registers.
\<close>

definition registered :: "Policy \<Rightarrow> string \<Rightarrow> string \<Rightarrow> rule list" where
  "registered p res verb =
     concat (map (\<lambda>v. if res = Resource p \<and> verb = Verb v then Concrete v else []) (PolicyVerbs p))"

definition concreteRules :: "Policy \<Rightarrow> rule list" where
  "concreteRules p = concat (map Concrete (PolicyVerbs p))"

section \<open>Properties\<close>

subsection \<open>Loops as list functions\<close>

lemma foldl_append_concat: "foldl (\<lambda>acc x. acc @ f x) a xs = a @ concat (map f xs)"
  by (induction xs arbitrary: a) simp_all

lemma foldl_snoc_map: "foldl (\<lambda>acc x. acc @ [f x]) a xs = a @ map f xs"
  by (induction xs arbitrary: a) simp_all

lemma mset_insert_Less: "mset (insert_Less lt x ys) = add_mset x (mset ys)"
  by (induction ys) simp_all

lemma set_insert_Less: "set (insert_Less lt x ys) = insert x (set ys)"
  by (induction ys) auto

lemma sorted_insert_Less:
  "sorted (map f ys) \<Longrightarrow> sorted (map f (insert_Less (\<lambda>a b. f a < f b) x ys))"
  by (induction ys) (auto simp: set_insert_Less)

lemma filter_insert_Less:
  "sorted (map f ys) \<Longrightarrow>
   filter (\<lambda>y. k = f y) (insert_Less (\<lambda>a b. f a < f b) x ys) =
   filter (\<lambda>y. k = f y) ys @ (if k = f x then [x] else [])"
proof (induction ys)
  case Nil
  show ?case by simp
next
  case (Cons y ys)
  show ?case
  proof (cases "f x < f y")
    case True
    with Cons.prems have "\<forall>z\<in>set (y # ys). f x < f z" by auto
    then have "k = f x \<Longrightarrow> filter (\<lambda>y. k = f y) (y # ys) = []"
      by (auto simp: filter_empty_conv)
    with True show ?thesis by auto
  next
    case False
    from Cons.prems have "sorted (map f ys)" by simp
    from Cons.IH [OF this] False show ?thesis by auto
  qed
qed

lemma foldl_insert_Less_props:
  "sorted (map f acc) \<Longrightarrow>
   sorted (map f (foldl (\<lambda>pre x. insert_Less (\<lambda>a b. f a < f b) x pre) acc xs)) \<and>
   mset (foldl (\<lambda>pre x. insert_Less (\<lambda>a b. f a < f b) x pre) acc xs) = mset acc + mset xs \<and>
   filter (\<lambda>y. k = f y) (foldl (\<lambda>pre x. insert_Less (\<lambda>a b. f a < f b) x pre) acc xs) =
     filter (\<lambda>y. k = f y) acc @ filter (\<lambda>y. k = f y) xs"
proof (induction xs arbitrary: acc)
  case Nil
  then show ?case by simp
next
  case (Cons x xs)
  from Cons.prems have s: "sorted (map f (insert_Less (\<lambda>a b. f a < f b) x acc))"
    by (rule sorted_insert_Less)
  from Cons.IH [OF s] show ?case
    by (simp add: mset_insert_Less filter_insert_Less [OF Cons.prems])
qed

lemma sort_Sort_eq_sort_key:
  assumes "\<And>a b. lt a b \<longleftrightarrow> f a < f b"
  shows "sort_Sort lt xs = sort_key f xs"
proof -
  have lt: "lt = (\<lambda>a b. f a < f b)" using assms by (intro ext) simp
  have "sort_key f xs = sort_Sort lt xs"
  proof (rule properties_for_sort_key)
    show "mset (sort_Sort lt xs) = mset xs"
      using foldl_insert_Less_props [of f "[]" xs] by (simp add: sort_Sort_def lt)
    show "sorted (map f (sort_Sort lt xs))"
      using foldl_insert_Less_props [of f "[]" xs] by (simp add: sort_Sort_def lt)
    fix k
    show "filter (\<lambda>x. f k = f x) (sort_Sort lt xs) = filter (\<lambda>x. f k = f x) xs"
      using foldl_insert_Less_props [of f "[]" xs "f k"] by (simp add: sort_Sort_def lt)
  qed
  then show ?thesis by simp
qed

lemma rules_Less_key: "rules_Less a b \<longleftrightarrow> rule_key a < rule_key b"
  by (auto simp: rules_Less_def rule_key_def)

lemma roles_Less_key: "roles_Less a b \<longleftrightarrow> role_key a < role_key b"
  by (auto simp: roles_Less_def role_key_def)

lemma roleRefs_Less_key: "roleRefs_Less a b \<longleftrightarrow> roleRef_key a < roleRef_key b"
  by (auto simp: roleRefs_Less_def roleRef_key_def)

lemma inj_rule_key: "inj_on rule_key A"
  by (auto simp: inj_on_def rule_key_def)

lemma inj_roleRef_key: "inj_on roleRef_key A"
  by (auto simp: inj_on_def roleRef_key_def)

lemma foldl_pair_collect:
  "foldl (\<lambda>(acc, seen) x. case h x of (new, x') \<Rightarrow> (acc @ new, seen @ [x'])) (a, b) xs =
   (a @ concat (map (\<lambda>x. fst (h x)) xs), b @ map (\<lambda>x. snd (h x)) xs)"
  by (induction xs arbitrary: a b) (simp_all add: case_prod_unfold)

lemma foldl_pair_snoc:
  "foldl (\<lambda>(acc, seen) x. case h x of (y, x') \<Rightarrow> (acc @ [y], seen @ [x'])) (a, b) xs =
   (a @ map (\<lambda>x. fst (h x)) xs, b @ map (\<lambda>x. snd (h x)) xs)"
  by (induction xs arbitrary: a b) (simp_all add: case_prod_unfold)

lemma endpointRules_eq:
  "endpointRules verbs resources =
   concat (map (\<lambda>v. map (\<lambda>e. \<lparr>Method = v, Endpoint = e\<rparr>) resources) verbs)"
  by (simp add: endpointRules_def foldl_snoc_map foldl_append_concat)

lemma compileRole_eq:
  "compileRole g ro =
   (\<lparr>role.Name = Role.Name ro, role.Namespace = Role.Namespace ro,
     role.Rules = sort_Sort rules_Less (concat (map (\<lambda>r. fst (ruleRules g r)) (Role.Rules ro)))\<rparr>,
    ro\<lparr>Role.Rules := map (\<lambda>r. snd (ruleRules g r)) (Role.Rules ro)\<rparr>)"
  by (simp add: compileRole_def Let_def foldl_pair_collect)

lemma generateOPARoles_eq:
  "generateOPARoles gm G roles ps =
   (\<lparr>Roles = sort_Sort roles_Less (map (\<lambda>ro. fst (compileRole (G (gm ps)) ro)) roles)\<rparr>,
    map (\<lambda>ro. snd (compileRole (G (gm ps)) ro)) roles)"
  by (simp add: generateOPARoles_def Let_def foldl_pair_snoc)

lemma tableRules_eq:
  "tableRules tbl = concat (map (\<lambda>(res, m). concat (map snd m)) tbl)"
proof -
  have inner: "\<And>acc rs. foldl (\<lambda>acc r. acc @ [r]) acc rs = acc @ rs"
    using foldl_snoc_map [of "\<lambda>r. r"] by simp
  have mid: "\<And>acc m. foldl (\<lambda>acc (act, rs). acc @ rs) acc m = acc @ concat (map snd m)"
    using foldl_append_concat [of snd] by (simp add: case_prod_unfold)
  have "tableRules tbl = foldl (\<lambda>acc (res, m). acc @ concat (map snd m)) [] tbl"
    by (simp add: tableRules_def inner mid)
  also have "\<dots> = concat (map (\<lambda>(res, m). concat (map snd m)) tbl)"
    using foldl_append_concat [of "\<lambda>(res, m). concat (map snd m)" "[]" tbl]
    by (simp add: case_prod_unfold)
  finally show ?thesis .
qed

lemma urlRules_eq:
  "urlRules urls =
   concat (map (\<lambda>r. endpointRules (Methods (setMethods r)) (Endpoints (setMethods r))) urls)"
  by (simp add: urlRules_def Let_def foldl_append_concat)

lemma bindingsOf_eq:
  "bindingsOf nb =
   map (\<lambda>(n, b). \<lparr>binding.Namespace = n, RoleRefs = sort_Sort roleRefs_Less b\<rparr>) nb"
  using foldl_snoc_map [of "\<lambda>(n, b). \<lparr>binding.Namespace = n, RoleRefs = sort_Sort roleRefs_Less b\<rparr>" "[]" nb]
  by (simp add: bindingsOf_def case_prod_unfold)

lemma roleBindingsOf_eq:
  "roleBindingsOf m =
   map (\<lambda>(u, nb). \<lparr>roleBinding.UID = u, Bindings = sort_Sort bindings_Less (bindingsOf nb)\<rparr>) m"
  using foldl_snoc_map [of "\<lambda>(u, nb). \<lparr>roleBinding.UID = u, Bindings = sort_Sort bindings_Less (bindingsOf nb)\<rparr>" "[]" m]
  by (simp add: roleBindingsOf_def case_prod_unfold)

lemma mset_sort_Sort: "mset (sort_Sort lt xs) = mset xs"
proof -
  have "\<And>acc. mset (foldl (\<lambda>pre x. insert_Less lt x pre) acc xs) = mset acc + mset xs"
    by (induction xs) (simp_all add: mset_insert_Less)
  then show ?thesis by (simp add: sort_Sort_def)
qed

lemma set_sort_Sort: "set (sort_Sort lt xs) = set xs"
  using mset_sort_Sort [of lt xs] by (metis set_mset_mset)

lemma sort_Sort_rules: "sort_Sort rules_Less xs = sort_key rule_key xs"
  by (rule sort_Sort_eq_sort_key) (rule rules_Less_key)

lemma sort_Sort_roles: "sort_Sort roles_Less xs = sort_key role_key xs"
  by (rule sort_Sort_eq_sort_key) (rule roles_Less_key)

lemma sort_Sort_roleRefs: "sort_Sort roleRefs_Less xs = sort_key roleRef_key xs"
  by (rule sort_Sort_eq_sort_key) (rule roleRefs_Less_key)

lemma sort_Sort_bindings: "sort_Sort bindings_Less xs = sort_key binding.Namespace xs"
  by (rule sort_Sort_eq_sort_key) (simp add: bindings_Less_def)

lemma sort_Sort_roleBindings: "sort_Sort roleBindings_Less xs = sort_key roleBinding.UID xs"
  by (rule sort_Sort_eq_sort_key) (simp add: roleBindings_Less_def)

lemma sorted_arrangement_unique:
  fixes f :: "'a \<Rightarrow> 'k::linorder"
  assumes "\<And>a b. lt a b \<longleftrightarrow> f a < f b"
    and "mset ys = mset xs" and "sorted (map f ys)" and "inj_on f (set xs)"
  shows "ys = sort_Sort lt xs"
  using assms sort_Sort_eq_sort_key [of lt f xs] sort_key_inj_key_eq [of xs ys f] by simp

subsection \<open>Facts about the role compiler\<close>

lemmas string_consts = MethodGet_def MethodPost_def MethodPut_def MethodPatch_def MethodDelete_def
  MethodAll_def AllMethods_def

lemma set_Roles_generateOPARoles:
  "set (Roles (fst (generateOPARoles gm G roles ps))) =
   (\<lambda>ro. fst (compileRole (G (gm ps)) ro)) ` set roles"
  by (simp add: generateOPARoles_eq set_sort_Sort)

lemma wildcard_rules_sorted:
  "sort_Sort rules_Less (endpointRules AllMethods [e]) =
   [\<lparr>Method = ''DELETE'', Endpoint = e\<rparr>, \<lparr>Method = ''GET'', Endpoint = e\<rparr>,
    \<lparr>Method = ''PATCH'', Endpoint = e\<rparr>, \<lparr>Method = ''POST'', Endpoint = e\<rparr>,
    \<lparr>Method = ''PUT'', Endpoint = e\<rparr>]"
  by (simp add: sort_Sort_def endpointRules_eq AllMethods_def rules_Less_def
      MethodGet_def MethodPost_def MethodPut_def MethodPatch_def MethodDelete_def)

lemma compile_overlapping:
  "Roles (fst (generateOPARoles noMappings noRules [overlapping] [])) = [overlappingCompiled]"
  by (simp add: generateOPARoles_eq compileRole_eq ruleRules_def setVerbs_def endpointRules_eq
      sort_Sort_def rules_Less_def overlapping_def overlappingCompiled_def string_consts Let_def)

lemma set_endpointRules:
  "set (endpointRules verbs resources) =
   {\<lparr>Method = v, Endpoint = e\<rparr> | v e. v \<in> set verbs \<and> e \<in> set resources}"
  by (auto simp: endpointRules_eq)

lemma setVerbs_exact: "Verbs r = [MethodAll] \<Longrightarrow> setVerbs r = r\<lparr>Verbs := AllMethods\<rparr>"
  by (simp add: setVerbs_def)

lemma setVerbs_other: "Verbs r \<noteq> [MethodAll] \<Longrightarrow> setVerbs r = r"
  by (cases "Verbs r") (auto simp: setVerbs_def)

lemma setMethods_exact: "Methods r = [MethodAll] \<Longrightarrow> setMethods r = r\<lparr>Methods := AllMethods\<rparr>"
  by (simp add: setMethods_def)

lemma setMethods_other: "Methods r \<noteq> [MethodAll] \<Longrightarrow> setMethods r = r"
  by (cases "Methods r") (auto simp: setMethods_def)

lemma set_urlRules:
  "set (urlRules urls) =
   (\<Union>r \<in> set urls. set (endpointRules (Methods (setMethods r)) (Endpoints (setMethods r))))"
  by (simp add: urlRules_eq)

lemma literal_in_urlRules:
  assumes "pr \<in> set urls" "MethodAll \<in> set (Methods pr)" "Methods pr \<noteq> [MethodAll]"
    "e \<in> set (Endpoints pr)"
  shows "\<lparr>Method = MethodAll, Endpoint = e\<rparr> \<in> set (urlRules urls)"
proof -
  from assms have "\<lparr>Method = MethodAll, Endpoint = e\<rparr>
      \<in> set (endpointRules (Methods (setMethods pr)) (Endpoints (setMethods pr)))"
    by (simp add: setMethods_other set_endpointRules)
  with assms(1) show ?thesis
    unfolding set_urlRules by blast
qed

lemma mset_Registered:
  "mset (Registered (generateOPAExemptionURLs gm pub sys adm ps)) =
   mset (tableRules (gm ps)) + mset (urlRules adm)"
  by (simp add: generateOPAExemptionURLs_def Let_def mset_sort_Sort)

lemma snd_ruleRules:
  "snd (ruleRules g r) =
   (if Rule.Kind r \<noteq> KindResource \<and> Verbs r = [MethodAll] then r\<lparr>Verbs := AllMethods\<rparr> else r)"
  by (cases "Verbs r = [MethodAll]") (simp_all add: ruleRules_def Let_def setVerbs_exact setVerbs_other)

text \<open>
  The expansion written into a rule or a URL entry is stable: compiling what a compile
  has left gives the same rules and leaves it as it is. A rule that two roles share,
  or a table compiled twice, is therefore read with the same result each time.
\<close>

lemma setVerbs_idem: "setVerbs (setVerbs r) = setVerbs r"
  by (simp add: setVerbs_def AllMethods_def)

lemma ruleRules_idem:
  "ruleRules g (snd (ruleRules g r)) = (fst (ruleRules g r), snd (ruleRules g r))"
  by (simp add: ruleRules_def Let_def setVerbs_idem) (simp add: setVerbs_def)

lemma setMethods_idem: "setMethods (setMethods r) = setMethods r"
  by (simp add: setMethods_def AllMethods_def)

lemma urlRules_setMethods: "urlRules (map setMethods urls) = urlRules urls"
  by (simp add: urlRules_eq setMethods_idem comp_def)

subsection \<open>Facts about the bundle\<close>

lemma GenerateOPABundle_eq:
  "GenerateOPABundle env gm G pub sys adm authz rv (rs, e1) (bs, e2) (ps, e3) s =
   save env (bundleFiles gm G pub sys adm authz rv rs bs ps) s"
  by (simp add: GenerateOPABundle_def)

lemma cacheFS_save:
  "cacheFS (snd (save env files s)) = Some (snd (writeFiles env files (NewMemMapFs env)))"
  by (simp add: save_def Let_def split: prod.splits option.splits)

lemma save_error_cases:
  assumes "save env files s = (Some e, s')"
  shows "fst (writeFiles env files (NewMemMapFs env)) = Some e \<and> disk s' = disk s \<or>
         fst (writeFiles env files (NewMemMapFs env)) = None \<and>
         Tar env (snd (writeFiles env files (NewMemMapFs env))) (Join env (DataPath env) ''bundle.tar.gz'') (disk s) = (Some e, disk s')"
  using assms by (auto simp: save_def Let_def split: prod.splits option.splits)

lemma GetRevision_initialised:
  "cacheFS s = Some fs \<Longrightarrow>
   GetRevision env s =
     Inr (case ReadFile env fs manifestPath of
            Inl err \<Rightarrow> ''''
          | Inr content \<Rightarrow> (case Unmarshal env content of Inl err \<Rightarrow> '''' | Inr mf \<Rightarrow> Revision mf))"
  by (simp add: GetRevision_def split: sum.splits)

lemma GetRevision_soft:
  assumes "cacheFS s = Some fs"
    and "ReadFile env fs manifestPath = Inl err \<or>
         (\<exists>content. ReadFile env fs manifestPath = Inr content \<and> Unmarshal env content = Inl err)"
  shows "GetRevision env s = Inr ''''"
  using assms by (auto simp: GetRevision_def)

lemmas path_consts = manifestPath_def policyPath_def rolesPath_def rolebindingsPath_def
  exemptionPath_def

lemma published_eq:
  "published =
     \<lparr>cacheFS = Some [(''.manifest'', ''revision=r1''), (''authz.rego'', ''package authz''),
                       (''roles/data.json'', ''{}''), (''bindings/data.json'', ''{}''),
                       (''exemptions/data.json'', ''{}'')],
      disk = [(''/data/bundle.tar.gz'',
               [(''.manifest'', ''revision=r1''), (''authz.rego'', ''package authz''),
                (''roles/data.json'', ''{}''), (''bindings/data.json'', ''{}''),
                (''exemptions/data.json'', ''{}'')])]\<rparr>"
  by (simp add: published_def GenerateOPABundle_def bundleFiles_def save_def memEnv_def
      memMarshal_def generateOPAManifest_def generateOPAPolicy_def initial_def path_consts Let_def)

lemma failed_compile_eq:
  "GenerateOPABundle fullDiskEnv noMappings noRules [] [] [] ''package authz'' ''r2''
     ([], None) ([], None) ([], None) published =
   (Some (Error ''no space left on device''),
    \<lparr>cacheFS = Some [(''.manifest'', ''revision=r2''), (''authz.rego'', ''package authz''),
                       (''roles/data.json'', ''{}''), (''bindings/data.json'', ''{}''),
                       (''exemptions/data.json'', ''{}'')],
      disk = [(''/data/bundle.tar.gz'',
               [(''.manifest'', ''revision=r1''), (''authz.rego'', ''package authz''),
                (''roles/data.json'', ''{}''), (''bindings/data.json'', ''{}''),
                (''exemptions/data.json'', ''{}'')])]\<rparr>)"
  by (simp add: published_eq GenerateOPABundle_def bundleFiles_def save_def memEnv_def fullDiskEnv_def
      memMarshal_def generateOPAManifest_def generateOPAPolicy_def path_consts Let_def)

lemma GetRevision_published: "GetRevision memEnv published = Inr ''r1''"
  by (simp add: published_eq GetRevision_def memEnv_def memUnmarshal_def manifestPath_def)

lemma writeFiles_append:
  "writeFiles env (pre @ post) fs =
   (case writeFiles env pre fs of
      (Some e, fs') \<Rightarrow> (Some e, fs')
    | (None, fs') \<Rightarrow> writeFiles env post fs')"
  by (induction pre arbitrary: fs) (auto split: sum.splits prod.splits option.splits)

lemma writeFiles_content_error:
  assumes "writeFiles env pre fs = (None, fs1)"
    and "(case data item of Bytes c \<Rightarrow> Inr c | Value c \<Rightarrow> MarshalIndent env c) = Inl e"
  shows "writeFiles env (pre @ item # post) fs = (Some e, fs1)"
  using assms by (simp add: writeFiles_append)

lemma writeFiles_mkdir_error:
  assumes "writeFiles env pre fs = (None, fs1)"
    and "(case data item of Bytes c \<Rightarrow> Inr c | Value c \<Rightarrow> MarshalIndent env c) = Inr content"
    and "MkdirAll env fs1 (Dir env (path item)) = (Some e, fs2)"
  shows "writeFiles env (pre @ item # post) fs = (Some e, fs2)"
  using assms by (simp add: writeFiles_append)

lemma writeFiles_write_error:
  assumes "writeFiles env pre fs = (None, fs1)"
    and "(case data item of Bytes c \<Rightarrow> Inr c | Value c \<Rightarrow> MarshalIndent env c) = Inr content"
    and "MkdirAll env fs1 (Dir env (path item)) = (None, fs2)"
    and "WriteFile env fs2 (path item) content = (Some e, fs3)"
  shows "writeFiles env (pre @ item # post) fs = (Some e, fs3)"
  using assms by (simp add: writeFiles_append)

lemma save_write_error:
  assumes "writeFiles env files (NewMemMapFs env) = (Some e, fs)"
  shows "save env files s = (Some e, s\<lparr>cacheFS := Some fs\<rparr>)"
  using assms by (simp add: save_def)

lemma save_tar_error:
  assumes "writeFiles env files (NewMemMapFs env) = (None, fs)"
    and "Tar env fs (Join env (DataPath env) ''bundle.tar.gz'') (disk s) = (Some e, d)"
  shows "save env files s = (Some e, s\<lparr>cacheFS := Some fs, disk := d\<rparr>)"
  using assms by (simp add: save_def)

lemma sample_files_split:
  "bundleFiles noMappings noRules [] [] [] ''package authz'' ''r2'' [] [] [] =
   take 2 (bundleFiles noMappings noRules [] [] [] ''package authz'' ''r2'' [] [] []) @
   (bundleFiles noMappings noRules [] [] [] ''package authz'' ''r2'' [] [] []) ! 2 #
   drop 3 (bundleFiles noMappings noRules [] [] [] ''package authz'' ''r2'' [] [] [])"
  by (simp add: bundleFiles_def)

lemma sample_roles_file:
  "(bundleFiles noMappings noRules [] [] [] ''package authz'' ''r2'' [] [] []) ! 2 =
   \<lparr>data = Value (RolesData (fst (generateOPARoles noMappings noRules [] []))),
    path = ''roles/data.json''\<rparr>"
  by (simp add: bundleFiles_def rolesPath_def)

lemma sample_first_files:
  "take 2 (bundleFiles noMappings noRules [] [] [] ''package authz'' ''r2'' [] [] []) =
   [\<lparr>data = Value (Manifest \<lparr>Revision = ''r2'', Roots = ['''']\<rparr>), path = ''.manifest''\<rparr>,
    \<lparr>data = Bytes ''package authz'', path = ''authz.rego''\<rparr>]"
  by (simp add: bundleFiles_def generateOPAManifest_def generateOPAPolicy_def path_consts)

text \<open>
  While the revision is empty the handler never answers 304 itself and sets no \<open>Etag\<close>.
\<close>

lemma DownloadBundle_empty_revision:
  assumes "GetRevision env s = Inr ''''"
  shows "DownloadBundle env ServeFile s c =
           Inr (ServeFile (disk s)
                  (c\<lparr>header := (header c)(''Content-Type'' \<mapsto> ''application/gzip'')\<rparr>)
                  (Join env (DataPath env) (Param c ''name'')))"
  using assms
  by (simp add: DownloadBundle_def GetHeader_def Param_def Header_def File_def Let_def)

subsection \<open>Facts about the role-binding compiler\<close>

lemma set_update_distinct:
  assumes "distinct (map fst al)"
  shows "set (AList.update k v al) = {(k, v)} \<union> {p \<in> set al. fst p \<noteq> k}"
proof -
  have d: "distinct (map fst (AList.update k v al))"
    using assms by (rule distinct_update)
  show ?thesis
  proof (rule set_eqI)
    fix p :: "'a \<times> 'b"
    obtain a b where p: "p = (a, b)" by (cases p)
    have "p \<in> set (AList.update k v al) \<longleftrightarrow> map_of (AList.update k v al) a = Some b"
      using d by (simp add: p)
    also have "\<dots> \<longleftrightarrow> ((map_of al)(k \<mapsto> v)) a = Some b"
      by (simp add: update_conv')
    also have "\<dots> \<longleftrightarrow> p \<in> {(k, v)} \<union> {p \<in> set al. fst p \<noteq> k}"
      using assms by (auto simp: p)
    finally show "p \<in> set (AList.update k v al) \<longleftrightarrow> p \<in> {(k, v)} \<union> {p \<in> set al. fst p \<noteq> k}" .
  qed
qed

lemma wellFormed_Nil: "wellFormed []"
  by (simp add: wellFormed_def)

lemma wellFormed_inner:
  assumes "wellFormed m" "map_of m u = Some nb"
  shows "nb \<noteq> [] \<and> distinct (map fst nb) \<and> (\<forall>(n, refs) \<in> set nb. refs \<noteq> [])"
  using assms by (auto simp: wellFormed_def dest!: map_of_SomeD)

lemma wellFormed_addSubject:
  assumes "wellFormed m"
  shows "wellFormed (addSubject rb m s)"
proof (cases "Subject.Kind s = UserKind")
  case False
  with assms show ?thesis by (simp add: addSubject_def)
next
  case True
  define nb where "nb = (case map_of m (Subject.UID s) of None \<Rightarrow> [] | Some nb \<Rightarrow> nb)"
  define refs where "refs = (case map_of nb (RoleBinding.Namespace rb) of None \<Rightarrow> [] | Some refs \<Rightarrow> refs)"
  define nb' where "nb' = AList.update (RoleBinding.Namespace rb) (refs @ [refOf rb]) nb"
  have eq: "addSubject rb m s = AList.update (Subject.UID s) nb' m"
    using True by (simp add: addSubject_def nb_def refs_def nb'_def refOf_def Let_def)
  have dm: "distinct (map fst m)" using assms by (simp add: wellFormed_def)
  have nbp: "distinct (map fst nb) \<and> (\<forall>(n, refs) \<in> set nb. refs \<noteq> [])"
  proof (cases "map_of m (Subject.UID s)")
    case None
    then show ?thesis by (simp add: nb_def)
  next
    case (Some x)
    with wellFormed_inner [OF assms Some] show ?thesis by (simp add: nb_def)
  qed
  have nb'p: "nb' \<noteq> [] \<and> distinct (map fst nb') \<and> (\<forall>(n, refs) \<in> set nb'. refs \<noteq> [])"
    using nbp by (auto simp: nb'_def distinct_update set_update_distinct)
  show ?thesis
    unfolding eq wellFormed_def
    using dm nb'p assms
    by (auto simp: distinct_update set_update_distinct wellFormed_def)
qed

lemma refsOf_addSubject:
  "refsOf (addSubject rb m s) u n =
   refsOf m u n @
     (if Subject.Kind s = UserKind \<and> Subject.UID s = u \<and> RoleBinding.Namespace rb = n
      then [refOf rb] else [])"
  by (auto simp: addSubject_def refsOf_def refOf_def Let_def update_conv' split: option.splits)

lemma wellFormed_foldl_addSubject:
  "wellFormed m \<Longrightarrow> wellFormed (foldl (addSubject rb) m ss)"
  by (induction ss arbitrary: m) (simp_all add: wellFormed_addSubject)

lemma refsOf_foldl_addSubject:
  "refsOf (foldl (addSubject rb) m ss) u n =
   refsOf m u n @
     map (\<lambda>s. refOf rb)
       (filter (\<lambda>s. Subject.Kind s = UserKind \<and> Subject.UID s = u \<and> RoleBinding.Namespace rb = n) ss)"
  by (induction ss arbitrary: m) (simp_all add: refsOf_addSubject)

lemma wellFormed_collectUserRoles:
  "wellFormed m \<Longrightarrow> wellFormed (collectUserRoles m rbs)"
  unfolding collectUserRoles_def
  by (induction rbs arbitrary: m) (simp_all add: wellFormed_foldl_addSubject)

lemma refsOf_collectUserRoles:
  "refsOf (collectUserRoles m rbs) u n = refsOf m u n @ concat (map (\<lambda>rb. grants rb u n) rbs)"
  unfolding collectUserRoles_def
  by (induction rbs arbitrary: m) (simp_all add: refsOf_foldl_addSubject grants_def)

lemma refsOf_Nil: "refsOf [] u n = []"
  by (simp add: refsOf_def)

lemma mset_concat_map_cong:
  assumes "mset xs = mset ys"
  shows "mset (concat (map f xs)) = mset (concat (map f ys))"
proof -
  have "mset (concat (map f xs)) = sum_mset (image_mset (\<lambda>x. mset (f x)) (mset xs))"
    by (induction xs) simp_all
  moreover have "mset (concat (map f ys)) = sum_mset (image_mset (\<lambda>x. mset (f x)) (mset ys))"
    by (induction ys) simp_all
  ultimately show ?thesis using assms by simp
qed

lemma sort_key_alist_cong:
  fixes key :: "'b \<Rightarrow> 'k::linorder" and g :: "'k \<times> 'v \<Rightarrow> 'b"
  assumes dx: "distinct (map fst xs)" and dy: "distinct (map fst ys)"
    and key: "\<And>p. key (g p) = fst p"
    and img: "g ` set xs = g ` set ys"
  shows "sort_key key (map g xs) = sort_key key (map g ys)"
proof -
  have kx: "map key (map g xs) = map fst xs" and ky: "map key (map g ys) = map fst ys"
    by (simp_all add: key)
  from dx have "distinct (map key (map g xs))" by (simp only: kx)
  then have x: "distinct (map g xs)" "inj_on key (set (map g xs))"
    by (simp_all only: distinct_map)
  from dy have "distinct (map key (map g ys))" by (simp only: ky)
  then have y: "distinct (map g ys)"
    by (simp only: distinct_map)
  from img have "set (map g xs) = set (map g ys)" by simp
  with x(1) y have "mset (map g xs) = mset (map g ys)"
    by (simp only: set_eq_iff_mset_eq_distinct)
  then show ?thesis
    using x(2) by (rule sort_key_eq_sort_key)
qed

lemma refsOf_nonempty_outer:
  assumes "refsOf m u n \<noteq> []"
  obtains nb refs where "map_of m u = Some nb" "map_of nb n = Some refs" "refs = refsOf m u n"
  using assms by (auto simp: refsOf_def split: option.splits)

lemma bindingsOf_render: "bindingsOf nb = map renderBinding nb"
  by (simp add: bindingsOf_eq renderBinding_def case_prod_unfold)

lemma roleBindingsOf_render: "roleBindingsOf m = map renderRoleBinding m"
  by (simp add: roleBindingsOf_eq renderRoleBinding_def case_prod_unfold)

lemma sort_roleRefs_cong:
  "mset refs = mset refs' \<Longrightarrow> sort_Sort roleRefs_Less refs = sort_Sort roleRefs_Less refs'"
  unfolding sort_Sort_roleRefs
  by (rule sort_key_eq_sort_key) (simp_all add: inj_roleRef_key)

lemma renderBinding_subset:
  assumes wf: "wellFormed m" and wf': "wellFormed m'"
    and eq: "\<And>n. mset (refsOf m u n) = mset (refsOf m' u n)"
    and nb: "map_of m u = Some nb" and nb': "map_of m' u = Some nb'"
  shows "renderBinding ` set nb \<subseteq> renderBinding ` set nb'"
proof
  fix b
  assume "b \<in> renderBinding ` set nb"
  then obtain n refs where mem: "(n, refs) \<in> set nb" and b: "b = renderBinding (n, refs)"
    by auto
  from wellFormed_inner [OF wf nb] mem have d: "distinct (map fst nb)" and ne: "refs \<noteq> []"
    by auto
  from d mem have "map_of nb n = Some refs" by simp
  with nb have r: "refsOf m u n = refs" by (simp add: refsOf_def)
  with ne eq [of n] have "refsOf m' u n \<noteq> []" by auto
  then obtain refs' where l': "map_of nb' n = Some refs'" and r': "refs' = refsOf m' u n"
    using nb' by (auto simp: refsOf_def split: option.splits)
  from l' have "(n, refs') \<in> set nb'" by (rule map_of_SomeD)
  moreover from r r' eq [of n] have "mset refs = mset refs'" by simp
  then have "sort_Sort roleRefs_Less refs = sort_Sort roleRefs_Less refs'"
    by (rule sort_roleRefs_cong)
  then have "renderBinding (n, refs) = renderBinding (n, refs')"
    by (simp add: renderBinding_def)
  ultimately show "b \<in> renderBinding ` set nb'"
    unfolding b by blast
qed

lemma sorted_bindings_cong:
  assumes wf: "wellFormed m" and wf': "wellFormed m'"
    and eq: "\<And>n. mset (refsOf m u n) = mset (refsOf m' u n)"
    and nb: "map_of m u = Some nb" and nb': "map_of m' u = Some nb'"
  shows "sort_Sort bindings_Less (bindingsOf nb) = sort_Sort bindings_Less (bindingsOf nb')"
proof -
  have "renderBinding ` set nb = renderBinding ` set nb'"
    using renderBinding_subset [OF wf wf' eq nb nb']
      renderBinding_subset [OF wf' wf eq [symmetric] nb' nb]
    by blast
  moreover have "distinct (map fst nb)" "distinct (map fst nb')"
    using wellFormed_inner [OF wf nb] wellFormed_inner [OF wf' nb'] by simp_all
  ultimately show ?thesis
    unfolding sort_Sort_bindings bindingsOf_render
    by (intro sort_key_alist_cong) (simp_all add: renderBinding_def)
qed

lemma renderRoleBinding_subset:
  assumes wf: "wellFormed m" and wf': "wellFormed m'"
    and eq: "\<And>u n. mset (refsOf m u n) = mset (refsOf m' u n)"
  shows "renderRoleBinding ` set m \<subseteq> renderRoleBinding ` set m'"
proof
  fix e
  assume "e \<in> renderRoleBinding ` set m"
  then obtain u nb where mem: "(u, nb) \<in> set m" and e: "e = renderRoleBinding (u, nb)"
    by auto
  from wf have dm: "distinct (map fst m)" by (simp add: wellFormed_def)
  with mem have nb: "map_of m u = Some nb" by simp
  from wellFormed_inner [OF wf nb] obtain n refs where
    inner: "(n, refs) \<in> set nb" "distinct (map fst nb)" "refs \<noteq> []"
    by (cases nb) auto
  then have "map_of nb n = Some refs" by simp
  with nb inner have "refsOf m u n \<noteq> []" by (simp add: refsOf_def)
  with eq [of u n] have "refsOf m' u n \<noteq> []" by auto
  then obtain nb' where nb': "map_of m' u = Some nb'"
    by (auto simp: refsOf_def split: option.splits)
  then have "(u, nb') \<in> set m'" by (rule map_of_SomeD)
  moreover have "renderRoleBinding (u, nb) = renderRoleBinding (u, nb')"
    using sorted_bindings_cong [OF wf wf' eq nb nb'] by (simp add: renderRoleBinding_def)
  ultimately show "e \<in> renderRoleBinding ` set m'"
    unfolding e by blast
qed

lemma sorted_roleBindings_cong:
  assumes wf: "wellFormed m" and wf': "wellFormed m'"
    and eq: "\<And>u n. mset (refsOf m u n) = mset (refsOf m' u n)"
  shows "sort_Sort roleBindings_Less (roleBindingsOf m) =
         sort_Sort roleBindings_Less (roleBindingsOf m')"
proof -
  have "renderRoleBinding ` set m = renderRoleBinding ` set m'"
    using renderRoleBinding_subset [OF wf wf' eq]
      renderRoleBinding_subset [OF wf' wf eq [symmetric]]
    by blast
  moreover have "distinct (map fst m)" "distinct (map fst m')"
    using wf wf' by (simp_all add: wellFormed_def)
  ultimately show ?thesis
    unfolding sort_Sort_roleBindings roleBindingsOf_render
    by (intro sort_key_alist_cong) (simp_all add: renderRoleBinding_def)
qed

lemma generateOPARoleBindings_mset:
  assumes "mset rbs' = mset rbs"
  shows "generateOPARoleBindings rbs' = generateOPARoleBindings rbs"
proof -
  have "sort_Sort roleBindings_Less (roleBindingsOf (collectUserRoles [] rbs')) =
        sort_Sort roleBindings_Less (roleBindingsOf (collectUserRoles [] rbs))"
  proof (rule sorted_roleBindings_cong)
    show "wellFormed (collectUserRoles [] rbs')" "wellFormed (collectUserRoles [] rbs)"
      by (simp_all add: wellFormed_collectUserRoles wellFormed_Nil)
    fix u n
    show "mset (refsOf (collectUserRoles [] rbs') u n) = mset (refsOf (collectUserRoles [] rbs) u n)"
      unfolding refsOf_collectUserRoles refsOf_Nil
      using mset_concat_map_cong [OF assms, of "\<lambda>rb. grants rb u n"] by simp
  qed
  then show ?thesis
    by (simp add: generateOPARoleBindings_def)
qed

subsection \<open>The outputs depend on the inputs up to order\<close>

lemma mset_concat_pointwise:
  assumes "\<And>x. mset (f' x) = mset (f x)"
  shows "mset (concat (map f' xs)) = mset (concat (map f xs))"
  by (induction xs) (simp_all add: assms)

lemma mset_ruleRules_cong:
  assumes "\<And>res verbs. mset (g' res verbs) = mset (g res verbs)"
  shows "mset (fst (ruleRules g' r)) = mset (fst (ruleRules g r))"
proof (cases "Rule.Kind r = KindResource")
  case True
  have "mset (concat (map (\<lambda>res. g' res (Verbs r)) (Resources r))) =
        mset (concat (map (\<lambda>res. g res (Verbs r)) (Resources r)))"
    by (rule mset_concat_pointwise) (rule assms)
  with True show ?thesis
    by (simp add: ruleRules_def foldl_append_concat)
next
  case False
  then show ?thesis by (simp add: ruleRules_def Let_def)
qed

lemma compileRole_cong:
  assumes "\<And>res verbs. mset (g' res verbs) = mset (g res verbs)"
  shows "fst (compileRole g' ro) = fst (compileRole g ro)"
proof -
  have "mset (concat (map (\<lambda>r. fst (ruleRules g' r)) (Role.Rules ro))) =
        mset (concat (map (\<lambda>r. fst (ruleRules g r)) (Role.Rules ro)))"
    by (rule mset_concat_pointwise) (rule mset_ruleRules_cong [OF assms])
  then have "sort_key rule_key (concat (map (\<lambda>r. fst (ruleRules g' r)) (Role.Rules ro))) =
             sort_key rule_key (concat (map (\<lambda>r. fst (ruleRules g r)) (Role.Rules ro)))"
    by (rule sort_key_eq_sort_key) (rule inj_rule_key)
  then show ?thesis
    by (simp add: compileRole_eq sort_Sort_rules)
qed

lemma generateOPARoles_mset:
  assumes perm: "mset roles' = mset roles"
    and keys: "distinct (map (\<lambda>ro. (Role.Namespace ro, Role.Name ro)) roles)"
    and tbl: "\<And>res verbs. mset (G (gm ps') res verbs) = mset (G (gm ps) res verbs)"
  shows "fst (generateOPARoles gm G roles' ps') = fst (generateOPARoles gm G roles ps)"
proof -
  let ?c = "\<lambda>ro. fst (compileRole (G (gm ps)) ro)"
  have c': "(\<lambda>ro. fst (compileRole (G (gm ps')) ro)) = ?c"
    by (intro ext compileRole_cong tbl)
  have "map role_key (map ?c roles) = map (\<lambda>ro. (Role.Namespace ro, Role.Name ro)) roles"
    by (simp add: compileRole_eq role_key_def)
  with keys have "distinct (map role_key (map ?c roles))" by (simp only:)
  then have inj: "inj_on role_key (set (map ?c roles))"
    by (simp only: distinct_map)
  from perm have "mset (map ?c roles) = mset (map ?c roles')" by simp
  then have "sort_key role_key (map ?c roles) = sort_key role_key (map ?c roles')"
    using inj by (rule sort_key_eq_sort_key)
  then show ?thesis
    by (simp add: generateOPARoles_eq sort_Sort_roles c')
qed

lemma generateOPAExemptionURLs_mset:
  assumes "mset (tableRules (gm ps')) = mset (tableRules (gm ps))"
  shows "generateOPAExemptionURLs gm pub sys adm ps' = generateOPAExemptionURLs gm pub sys adm ps"
proof -
  from assms have "mset (tableRules (gm ps') @ urlRules adm) = mset (tableRules (gm ps) @ urlRules adm)"
    by simp
  then have "sort_key rule_key (tableRules (gm ps') @ urlRules adm) =
             sort_key rule_key (tableRules (gm ps) @ urlRules adm)"
    by (rule sort_key_eq_sort_key) (rule inj_rule_key)
  then show ?thesis
    by (simp add: generateOPAExemptionURLs_def Let_def sort_Sort_rules)
qed

subsection \<open>Facts about subjects\<close>

lemma foldl_addSubject_no_user:
  "\<forall>s \<in> set ss. Subject.Kind s \<noteq> UserKind \<Longrightarrow> foldl (addSubject rb) m ss = m"
  by (induction ss arbitrary: m) (simp_all add: addSubject_def)

lemma addSubject_same_grant:
  "RoleBinding.Namespace rb' = RoleBinding.Namespace rb \<Longrightarrow> RoleRef rb' = RoleRef rb \<Longrightarrow>
   addSubject rb' m s = addSubject rb m s"
  by (simp add: addSubject_def)

lemma foldl_addSubject_filter:
  assumes "RoleBinding.Namespace rb' = RoleBinding.Namespace rb" "RoleRef rb' = RoleRef rb"
  shows "foldl (addSubject rb') m (filter (\<lambda>s. Subject.Kind s = UserKind) ss) =
         foldl (addSubject rb) m ss"
proof (induction ss arbitrary: m)
  case Nil
  show ?case by simp
next
  case (Cons s ss)
  show ?case
  proof (cases "Subject.Kind s = UserKind")
    case True
    then show ?thesis
      using Cons.IH by (simp add: addSubject_same_grant [OF assms])
  next
    case False
    then have "addSubject rb m s = m" by (simp add: addSubject_def)
    with False show ?thesis
      using Cons.IH by simp
  qed
qed

lemma collectUserRoles_append:
  "collectUserRoles m (xs @ ys) = collectUserRoles (collectUserRoles m xs) ys"
  by (simp add: collectUserRoles_def)

lemma collectUserRoles_Cons:
  "collectUserRoles m (rb # rbs) = collectUserRoles (foldl (addSubject rb) m (Subjects rb)) rbs"
  by (simp add: collectUserRoles_def)

lemma collect_skips_non_user:
  assumes "\<forall>s \<in> set (Subjects rb). Subject.Kind s \<noteq> UserKind"
  shows "collectUserRoles m (pre @ rb # post) = collectUserRoles m (pre @ post)"
  by (simp add: collectUserRoles_append collectUserRoles_Cons foldl_addSubject_no_user [OF assms])

lemma collect_filters_subjects:
  "collectUserRoles m (pre @ rb\<lparr>Subjects := filter (\<lambda>s. Subject.Kind s = UserKind) (Subjects rb)\<rparr> # post) =
   collectUserRoles m (pre @ rb # post)"
  by (simp add: collectUserRoles_append collectUserRoles_Cons foldl_addSubject_filter)

lemma set_RoleBindings:
  "set (RoleBindings (generateOPARoleBindings rbs)) =
   renderRoleBinding ` set (collectUserRoles [] rbs)"
  by (simp add: generateOPARoleBindings_def set_sort_Sort roleBindingsOf_render)

lemma set_grants:
  "set (grants rb u n) =
   {ref. ref = refOf rb \<and> (\<exists>s \<in> set (Subjects rb). Subject.Kind s = UserKind \<and>
      Subject.UID s = u \<and> RoleBinding.Namespace rb = n)}"
  by (auto simp: grants_def)

lemma entries_from_user_subjects:
  assumes e: "e \<in> set (RoleBindings (generateOPARoleBindings rbs))"
  shows "Bindings e \<noteq> [] \<and>
         (\<forall>b \<in> set (Bindings e). RoleRefs b \<noteq> [] \<and>
            (\<forall>ref \<in> set (RoleRefs b). \<exists>rb \<in> set rbs. \<exists>s \<in> set (Subjects rb).
               Subject.Kind s = UserKind \<and> Subject.UID s = roleBinding.UID e \<and>
               RoleBinding.Namespace rb = binding.Namespace b \<and> ref = refOf rb))"
proof -
  let ?m = "collectUserRoles [] rbs"
  have wf: "wellFormed ?m" by (simp add: wellFormed_collectUserRoles wellFormed_Nil)
  from e obtain u nb where mem: "(u, nb) \<in> set ?m" and e': "e = renderRoleBinding (u, nb)"
    unfolding set_RoleBindings by auto
  from wf have "distinct (map fst ?m)" by (simp add: wellFormed_def)
  with mem have nb: "map_of ?m u = Some nb" by simp
  note inner = wellFormed_inner [OF wf nb]
  have B: "set (Bindings e) = renderBinding ` set nb"
    by (simp add: e' renderRoleBinding_def set_sort_Sort bindingsOf_render)
  have "Bindings e \<noteq> []"
    using inner B by (cases nb) auto
  moreover have "RoleRefs b \<noteq> [] \<and>
            (\<forall>ref \<in> set (RoleRefs b). \<exists>rb \<in> set rbs. \<exists>s \<in> set (Subjects rb).
               Subject.Kind s = UserKind \<and> Subject.UID s = roleBinding.UID e \<and>
               RoleBinding.Namespace rb = binding.Namespace b \<and> ref = refOf rb)"
    if "b \<in> set (Bindings e)" for b
  proof -
    from that B obtain n refs where m2: "(n, refs) \<in> set nb" and b: "b = renderBinding (n, refs)"
      by auto
    from inner m2 have ne: "refs \<noteq> []" and "map_of nb n = Some refs" by auto
    with nb have "refs = refsOf ?m u n" by (simp add: refsOf_def)
    then have refs: "refs = concat (map (\<lambda>rb. grants rb u n) rbs)"
      by (simp add: refsOf_collectUserRoles refsOf_Nil)
    have R: "set (RoleRefs b) = set refs"
      by (simp add: b renderBinding_def set_sort_Sort)
    from ne R have "RoleRefs b \<noteq> []" by auto
    moreover have "\<exists>rb \<in> set rbs. \<exists>s \<in> set (Subjects rb).
               Subject.Kind s = UserKind \<and> Subject.UID s = roleBinding.UID e \<and>
               RoleBinding.Namespace rb = binding.Namespace b \<and> ref = refOf rb"
      if "ref \<in> set (RoleRefs b)" for ref
    proof -
      from that R refs obtain rb where "rb \<in> set rbs" "ref \<in> set (grants rb u n)"
        by auto
      then show ?thesis
        by (auto simp: set_grants e' b renderRoleBinding_def renderBinding_def)
    qed
    ultimately show ?thesis by blast
  qed
  ultimately show ?thesis by blast
qed

lemma user_subject_has_entry:
  assumes rb: "rb \<in> set rbs" and s: "s \<in> set (Subjects rb)" and k: "Subject.Kind s = UserKind"
  shows "\<exists>e \<in> set (RoleBindings (generateOPARoleBindings rbs)).
           roleBinding.UID e = Subject.UID s \<and>
           (\<exists>b \<in> set (Bindings e). binding.Namespace b = RoleBinding.Namespace rb \<and>
              refOf rb \<in> set (RoleRefs b))"
proof -
  let ?m = "collectUserRoles [] rbs"
  let ?u = "Subject.UID s" and ?n = "RoleBinding.Namespace rb"
  have "refOf rb \<in> set (grants rb ?u ?n)"
    using s k by (auto simp: set_grants)
  with rb have g: "refOf rb \<in> set (refsOf ?m ?u ?n)"
    by (auto simp: refsOf_collectUserRoles refsOf_Nil)
  then have "refsOf ?m ?u ?n \<noteq> []" by auto
  then obtain nb refs where nb: "map_of ?m ?u = Some nb" and refs: "map_of nb ?n = Some refs"
    and r: "refs = refsOf ?m ?u ?n"
    by (rule refsOf_nonempty_outer)
  let ?e = "renderRoleBinding (?u, nb)" and ?b = "renderBinding (?n, refs)"
  from nb have "(?u, nb) \<in> set ?m" by (rule map_of_SomeD)
  then have "?e \<in> set (RoleBindings (generateOPARoleBindings rbs))"
    unfolding set_RoleBindings by blast
  moreover have "roleBinding.UID ?e = ?u" by (simp add: renderRoleBinding_def)
  moreover from refs have "(?n, refs) \<in> set nb" by (rule map_of_SomeD)
  then have "?b \<in> set (Bindings ?e)"
    by (auto simp: renderRoleBinding_def set_sort_Sort bindingsOf_render)
  moreover have "binding.Namespace ?b = ?n" by (simp add: renderBinding_def)
  moreover have "refOf rb \<in> set (RoleRefs ?b)"
    using g r by (simp add: renderBinding_def set_sort_Sort)
  ultimately show ?thesis by blast
qed

lemma compile_mixed:
  "generateOPARoleBindings [mixedBinding, groupBinding] =
   \<lparr>RoleBindings =
      [\<lparr>roleBinding.UID = ''u1'',
        Bindings = [\<lparr>binding.Namespace = ''proj1'',
                     RoleRefs = [\<lparr>roleRef.Name = ''viewer'', roleRef.Namespace = ''proj1''\<rparr>]\<rparr>]\<rparr>]\<rparr>"
  by (simp add: generateOPARoleBindings_def collectUserRoles_def addSubject_def roleBindingsOf_eq
      bindingsOf_eq sort_Sort_def mixedBinding_def groupBinding_def Let_def)

text \<open>
  Roles that share namespace and name compare equal under \<open>roles.Less\<close>, and \<open>sort.Sort\<close>
  leaves two equal elements in the order it finds them: the order of the compiled roles
  is fixed by the compiler only where the stored roles have distinct names within a
  namespace.
\<close>

lemma equal_keys_keep_input_order:
  "mset [devWrite, devRead] = mset [devRead, devWrite] \<and>
   fst (generateOPARoles noMappings noRules [devRead, devWrite] []) =
     \<lparr>Roles = [\<lparr>role.Name = ''dev'', role.Namespace = ''proj1'',
                 role.Rules = [\<lparr>Method = ''GET'', Endpoint = ''/api/builds''\<rparr>]\<rparr>,
                \<lparr>role.Name = ''dev'', role.Namespace = ''proj1'',
                 role.Rules = [\<lparr>Method = ''POST'', Endpoint = ''/api/builds''\<rparr>]\<rparr>]\<rparr> \<and>
   fst (generateOPARoles noMappings noRules [devWrite, devRead] []) =
     \<lparr>Roles = [\<lparr>role.Name = ''dev'', role.Namespace = ''proj1'',
                 role.Rules = [\<lparr>Method = ''POST'', Endpoint = ''/api/builds''\<rparr>]\<rparr>,
                \<lparr>role.Name = ''dev'', role.Namespace = ''proj1'',
                 role.Rules = [\<lparr>Method = ''GET'', Endpoint = ''/api/builds''\<rparr>]\<rparr>]\<rparr> \<and>
   fst (generateOPARoles noMappings noRules [devWrite, devRead] []) \<noteq>
     fst (generateOPARoles noMappings noRules [devRead, devWrite] [])"
  by (simp add: generateOPARoles_eq compileRole_eq ruleRules_def setVerbs_def endpointRules_eq
      sort_Sort_def rules_Less_def roles_Less_def devRead_def devWrite_def string_consts Let_def)

subsection \<open>Facts about the Rule Expansion Table of the spec\<close>

lemma rulesAt_registerVerb:
  "rulesAt (registerVerb res mappings v) res' verb =
   rulesAt mappings res' verb @ (if res' = res \<and> verb = Verb v then Concrete v else [])"
  by (auto simp: registerVerb_def rulesAt_def Let_def update_conv' split: option.splits)

lemma rulesAt_foldl_registerVerb:
  "rulesAt (foldl (registerVerb res) mappings vs) res' verb =
   rulesAt mappings res' verb @
     concat (map (\<lambda>v. if res' = res \<and> verb = Verb v then Concrete v else []) vs)"
  by (induction vs arbitrary: mappings) (simp_all add: rulesAt_registerVerb)

lemma rulesAt_registerPolicies:
  "rulesAt (registerPolicies mappings ps) res verb =
   rulesAt mappings res verb @ concat (map (\<lambda>p. registered p res verb) ps)"
  unfolding registerPolicies_def
  by (induction ps arbitrary: mappings) (simp_all add: rulesAt_foldl_registerVerb registered_def)

lemma rulesAt_getResourceActionMappings:
  "rulesAt (getResourceActionMappings ps) res verb = concat (map (\<lambda>p. registered p res verb) ps)"
  unfolding getResourceActionMappings_def rulesAt_registerPolicies
  by (simp add: rulesAt_def)

lemma GetRules_rulesAt:
  "resourceActionMappings_GetRules mappings res verbs =
   concat (map (rulesAt mappings res) (remdups verbs))"
proof (cases "map_of mappings res")
  case None
  then show ?thesis
    by (simp add: resourceActionMappings_GetRules_def rulesAt_def)
next
  case (Some m)
  then have "rulesAt mappings res = (\<lambda>verb. case map_of m verb of None \<Rightarrow> [] | Some rs \<Rightarrow> rs)"
    by (intro ext) (simp add: rulesAt_def)
  with Some show ?thesis
    by (simp add: resourceActionMappings_GetRules_def)
qed

lemma mset_rulesAt_perm:
  assumes "mset ps' = mset ps"
  shows "mset (rulesAt (getResourceActionMappings ps') res verb) =
         mset (rulesAt (getResourceActionMappings ps) res verb)"
  unfolding rulesAt_getResourceActionMappings
  using assms by (rule mset_concat_map_cong)

lemma mset_GetRules_perm:
  assumes "mset ps' = mset ps"
  shows "mset (resourceActionMappings_GetRules (getResourceActionMappings ps') res verbs) =
         mset (resourceActionMappings_GetRules (getResourceActionMappings ps) res verbs)"
  unfolding GetRules_rulesAt
  by (rule mset_concat_pointwise) (rule mset_rulesAt_perm [OF assms])

lemma mset_concat_update:
  "mset (concat (map f (AList.update k v al))) +
     (case map_of al k of None \<Rightarrow> {#} | Some old \<Rightarrow> mset (f (k, old))) =
   mset (concat (map f al)) + mset (f (k, v))"
  by (induction al) auto

lemma mset_tableRules_registerVerb:
  "mset (tableRules (registerVerb res mappings v)) = mset (tableRules mappings) + mset (Concrete v)"
proof -
  define m where "m = (case map_of mappings res of None \<Rightarrow> [] | Some m \<Rightarrow> m)"
  define rs where "rs = (case map_of m (Verb v) of None \<Rightarrow> [] | Some rs \<Rightarrow> rs)"
  define m' where "m' = AList.update (Verb v) (rs @ Concrete v) m"
  have r: "registerVerb res mappings v = AList.update res m' mappings"
    by (simp add: registerVerb_def m_def rs_def m'_def Let_def)
  have "mset (concat (map snd m')) +
          (case map_of m (Verb v) of None \<Rightarrow> {#} | Some old \<Rightarrow> mset old) =
        mset (concat (map snd m)) + mset (rs @ Concrete v)"
    using mset_concat_update [of snd "Verb v" "rs @ Concrete v" m]
    by (simp add: m'_def cong: option.case_cong)
  moreover have "(case map_of m (Verb v) of None \<Rightarrow> {#} | Some old \<Rightarrow> mset old) = mset rs"
    by (simp add: rs_def split: option.splits)
  ultimately have inner: "mset (concat (map snd m')) = mset (concat (map snd m)) + mset (Concrete v)"
    by simp
  have "mset (tableRules (AList.update res m' mappings)) +
          (case map_of mappings res of None \<Rightarrow> {#} | Some old \<Rightarrow> mset (concat (map snd old))) =
        mset (tableRules mappings) + mset (concat (map snd m'))"
    using mset_concat_update [of "\<lambda>(res, m). concat (map snd m)" res m' mappings]
    by (simp add: tableRules_eq cong: option.case_cong)
  moreover have "(case map_of mappings res of None \<Rightarrow> {#}
                  | Some old \<Rightarrow> mset (concat (map snd old))) = mset (concat (map snd m))"
    by (simp add: m_def split: option.splits)
  ultimately show ?thesis
    by (simp add: r inner)
qed

lemma mset_tableRules_foldl_registerVerb:
  "mset (tableRules (foldl (registerVerb res) mappings vs)) =
   mset (tableRules mappings) + mset (concat (map Concrete vs))"
  by (induction vs arbitrary: mappings) (simp_all add: mset_tableRules_registerVerb)

lemma mset_tableRules_registerPolicies:
  "mset (tableRules (registerPolicies mappings ps)) =
   mset (tableRules mappings) + mset (concat (map concreteRules ps))"
  unfolding registerPolicies_def
  by (induction ps arbitrary: mappings)
    (simp_all add: mset_tableRules_foldl_registerVerb concreteRules_def)

lemma mset_tableRules_perm:
  assumes "mset ps' = mset ps"
  shows "mset (tableRules (getResourceActionMappings ps')) =
         mset (tableRules (getResourceActionMappings ps))"
  unfolding getResourceActionMappings_def mset_tableRules_registerPolicies
  using mset_concat_map_cong [OF assms, of concreteRules] by simp

lemma compile_with_table:
  "fst (generateOPARoles getResourceActionMappings resourceActionMappings_GetRules
          [tester, viewer] storedPolicies) =
   \<lparr>Roles =
      [\<lparr>role.Name = ''tester'', role.Namespace = ''proj1'',
        role.Rules = [\<lparr>Method = ''GET'', Endpoint = ''/api/reports''\<rparr>,
                      \<lparr>Method = ''GET'', Endpoint = ''/api/tests''\<rparr>]\<rparr>,
       \<lparr>role.Name = ''viewer'', role.Namespace = ''proj1'',
        role.Rules = [\<lparr>Method = ''DELETE'', Endpoint = ''/api/builds''\<rparr>,
                      \<lparr>Method = ''GET'', Endpoint = ''/api/builds''\<rparr>,
                      \<lparr>Method = ''PATCH'', Endpoint = ''/api/builds''\<rparr>,
                      \<lparr>Method = ''POST'', Endpoint = ''/api/builds''\<rparr>,
                      \<lparr>Method = ''PUT'', Endpoint = ''/api/builds''\<rparr>]\<rparr>]\<rparr>"
  by (simp add: generateOPARoles_eq compileRole_eq ruleRules_def setVerbs_def endpointRules_eq
      foldl_append_concat resourceActionMappings_GetRules_def getResourceActionMappings_def
      registerPolicies_def registerVerb_def storedPolicies_def tester_def viewer_def
      sort_Sort_def rules_Less_def roles_Less_def string_consts Let_def)

section \<open>The claims\<close>

subsection \<open>C1: a failed compile\<close>

text \<open>
  C1 fails as stated. A first compile publishes revision \<open>r1\<close>. A second compile, with revision \<open>r2\<close>, fails
  at the archive step: the error is returned, the archive on disk is still the one of
  \<open>r1\<close>, and \<open>GetRevision\<close> returns \<open>r2\<close>, no longer \<open>r1\<close>.
\<close>

theorem failed_compile_is_observed:
  "GetRevision fullDiskEnv published = Inr ''r1'' \<and>
   fst (GenerateOPABundle fullDiskEnv noMappings noRules [] [] [] ''package authz'' ''r2''
          ([], None) ([], None) ([], None) published) = Some (Error ''no space left on device'') \<and>
   GetRevision fullDiskEnv
     (snd (GenerateOPABundle fullDiskEnv noMappings noRules [] [] [] ''package authz'' ''r2''
             ([], None) ([], None) ([], None) published)) = Inr ''r2'' \<and>
   disk (snd (GenerateOPABundle fullDiskEnv noMappings noRules [] [] [] ''package authz'' ''r2''
             ([], None) ([], None) ([], None) published)) = disk published"
  unfolding failed_compile_eq
  by (simp add: published_eq GetRevision_def memEnv_def fullDiskEnv_def memUnmarshal_def manifestPath_def)

text \<open>
  C1, as amended. If a step of a bundle compile fails, be it the serialization of a file,
  the creation of its directory, its write or the archive step, \<open>GenerateOPABundle\<close>
  returns the error of that step, and it returns an error in no other case. \<open>save\<close> has
  by then replaced \<open>cacheFS\<close> by its new file system: after the failure readers observe
  that file system, with the files written before the failing step, and not the
  previous generation. The data directory is as before unless the archive step itself
  ran.
\<close>

theorem failed_compile_leaves_new_files:
  "(bundleFiles getMappings GetRules publicURLs systemAdminURLs adminURLs authz revision rs bs ps =
      pre @ item # post \<and>
    writeFiles env pre (NewMemMapFs env) = (None, fsa) \<longrightarrow>
      ((case data item of Bytes c \<Rightarrow> Inr c | Value c \<Rightarrow> MarshalIndent env c) = Inl e \<longrightarrow>
         GenerateOPABundle env getMappings GetRules publicURLs systemAdminURLs adminURLs authz
           revision (rs, rsErr) (bs, bsErr) (ps, psErr) s =
         (Some e, s\<lparr>cacheFS := Some fsa\<rparr>)) \<and>
      ((case data item of Bytes c \<Rightarrow> Inr c | Value c \<Rightarrow> MarshalIndent env c) = Inr content \<and>
       MkdirAll env fsa (Dir env (path item)) = (Some e, fsb) \<longrightarrow>
         GenerateOPABundle env getMappings GetRules publicURLs systemAdminURLs adminURLs authz
           revision (rs, rsErr) (bs, bsErr) (ps, psErr) s =
         (Some e, s\<lparr>cacheFS := Some fsb\<rparr>)) \<and>
      ((case data item of Bytes c \<Rightarrow> Inr c | Value c \<Rightarrow> MarshalIndent env c) = Inr content \<and>
       MkdirAll env fsa (Dir env (path item)) = (None, fsb) \<and>
       WriteFile env fsb (path item) content = (Some e, fsc) \<longrightarrow>
         GenerateOPABundle env getMappings GetRules publicURLs systemAdminURLs adminURLs authz
           revision (rs, rsErr) (bs, bsErr) (ps, psErr) s =
         (Some e, s\<lparr>cacheFS := Some fsc\<rparr>))) \<and>
   (writeFiles env
      (bundleFiles getMappings GetRules publicURLs systemAdminURLs adminURLs authz revision rs bs ps)
      (NewMemMapFs env) = (None, fs) \<and>
    Tar env fs (Join env (DataPath env) ''bundle.tar.gz'') (disk s) = (Some e, d) \<longrightarrow>
      GenerateOPABundle env getMappings GetRules publicURLs systemAdminURLs adminURLs authz
        revision (rs, rsErr) (bs, bsErr) (ps, psErr) s =
      (Some e, s\<lparr>cacheFS := Some fs, disk := d\<rparr>)) \<and>
   (GenerateOPABundle env getMappings GetRules publicURLs systemAdminURLs adminURLs authz
      revision (rs, rsErr) (bs, bsErr) (ps, psErr) s = (Some e, s') \<longrightarrow>
      cacheFS s' =
        Some (snd (writeFiles env
                     (bundleFiles getMappings GetRules publicURLs systemAdminURLs adminURLs
                        authz revision rs bs ps)
                     (NewMemMapFs env))) \<and>
      (fst (writeFiles env
              (bundleFiles getMappings GetRules publicURLs systemAdminURLs adminURLs
                 authz revision rs bs ps)
              (NewMemMapFs env)) = Some e \<and> disk s' = disk s \<or>
       fst (writeFiles env
              (bundleFiles getMappings GetRules publicURLs systemAdminURLs adminURLs
                 authz revision rs bs ps)
              (NewMemMapFs env)) = None \<and>
       Tar env
         (snd (writeFiles env
                 (bundleFiles getMappings GetRules publicURLs systemAdminURLs adminURLs
                    authz revision rs bs ps)
                 (NewMemMapFs env)))
         (Join env (DataPath env) ''bundle.tar.gz'') (disk s) = (Some e, disk s')))"
proof -
  let ?files = "bundleFiles getMappings GetRules publicURLs systemAdminURLs adminURLs
                  authz revision rs bs ps"
  let ?G = "GenerateOPABundle env getMappings GetRules publicURLs systemAdminURLs adminURLs authz
              revision (rs, rsErr) (bs, bsErr) (ps, psErr) s"
  have G: "?G = save env ?files s"
    by (rule GenerateOPABundle_eq)
  have steps: "((case data item of Bytes c \<Rightarrow> Inr c | Value c \<Rightarrow> MarshalIndent env c) = Inl e \<longrightarrow>
         ?G = (Some e, s\<lparr>cacheFS := Some fsa\<rparr>)) \<and>
      ((case data item of Bytes c \<Rightarrow> Inr c | Value c \<Rightarrow> MarshalIndent env c) = Inr content \<and>
       MkdirAll env fsa (Dir env (path item)) = (Some e, fsb) \<longrightarrow>
         ?G = (Some e, s\<lparr>cacheFS := Some fsb\<rparr>)) \<and>
      ((case data item of Bytes c \<Rightarrow> Inr c | Value c \<Rightarrow> MarshalIndent env c) = Inr content \<and>
       MkdirAll env fsa (Dir env (path item)) = (None, fsb) \<and>
       WriteFile env fsb (path item) content = (Some e, fsc) \<longrightarrow>
         ?G = (Some e, s\<lparr>cacheFS := Some fsc\<rparr>))"
    if f: "?files = pre @ item # post" and p: "writeFiles env pre (NewMemMapFs env) = (None, fsa)"
  proof (intro conjI impI)
    assume "(case data item of Bytes c \<Rightarrow> Inr c | Value c \<Rightarrow> MarshalIndent env c) = Inl e"
    from writeFiles_content_error [OF p this, of post]
    show "?G = (Some e, s\<lparr>cacheFS := Some fsa\<rparr>)"
      unfolding G f by (rule save_write_error)
  next
    assume "(case data item of Bytes c \<Rightarrow> Inr c | Value c \<Rightarrow> MarshalIndent env c) = Inr content \<and>
       MkdirAll env fsa (Dir env (path item)) = (Some e, fsb)"
    then have "writeFiles env (pre @ item # post) (NewMemMapFs env) = (Some e, fsb)"
      using writeFiles_mkdir_error [OF p] by blast
    then show "?G = (Some e, s\<lparr>cacheFS := Some fsb\<rparr>)"
      unfolding G f by (rule save_write_error)
  next
    assume "(case data item of Bytes c \<Rightarrow> Inr c | Value c \<Rightarrow> MarshalIndent env c) = Inr content \<and>
       MkdirAll env fsa (Dir env (path item)) = (None, fsb) \<and>
       WriteFile env fsb (path item) content = (Some e, fsc)"
    then have "writeFiles env (pre @ item # post) (NewMemMapFs env) = (Some e, fsc)"
      using writeFiles_write_error [OF p] by blast
    then show "?G = (Some e, s\<lparr>cacheFS := Some fsc\<rparr>)"
      unfolding G f by (rule save_write_error)
  qed
  have tar: "?G = (Some e, s\<lparr>cacheFS := Some fs, disk := d\<rparr>)"
    if "writeFiles env ?files (NewMemMapFs env) = (None, fs)"
      and "Tar env fs (Join env (DataPath env) ''bundle.tar.gz'') (disk s) = (Some e, d)"
    unfolding G using that by (rule save_tar_error)
  have bwd: "cacheFS s' = Some (snd (writeFiles env ?files (NewMemMapFs env))) \<and>
      (fst (writeFiles env ?files (NewMemMapFs env)) = Some e \<and> disk s' = disk s \<or>
       fst (writeFiles env ?files (NewMemMapFs env)) = None \<and>
       Tar env (snd (writeFiles env ?files (NewMemMapFs env)))
         (Join env (DataPath env) ''bundle.tar.gz'') (disk s) = (Some e, disk s'))"
    if "?G = (Some e, s')"
  proof -
    from that have sv: "save env ?files s = (Some e, s')" by (simp only: G)
    have "cacheFS (snd (save env ?files s)) = Some (snd (writeFiles env ?files (NewMemMapFs env)))"
      by (rule cacheFS_save)
    with sv have "cacheFS s' = Some (snd (writeFiles env ?files (NewMemMapFs env)))"
      by simp
    with save_error_cases [OF sv] show ?thesis by simp
  qed
  from steps tar bwd show ?thesis by blast
qed

theorem failed_compile_leaves_new_files_witness:
  "GenerateOPABundle noCodecEnv noMappings noRules [] [] [] ''package authz'' ''r2''
     ([], None) ([], None) ([], None) published =
     (Some (Error ''json: unsupported value''),
      published\<lparr>cacheFS := Some [(''.manifest'', ''revision=r2''),
                                  (''authz.rego'', ''package authz'')]\<rparr>) \<and>
   GenerateOPABundle noDirEnv noMappings noRules [] [] [] ''package authz'' ''r2''
     ([], None) ([], None) ([], None) published =
     (Some (Error ''mkdir failed''),
      published\<lparr>cacheFS := Some [(''.manifest'', ''revision=r2''),
                                  (''authz.rego'', ''package authz'')]\<rparr>) \<and>
   GenerateOPABundle noWriteEnv noMappings noRules [] [] [] ''package authz'' ''r2''
     ([], None) ([], None) ([], None) published =
     (Some (Error ''write failed''),
      published\<lparr>cacheFS := Some [(''.manifest'', ''revision=r2''),
                                  (''authz.rego'', ''package authz'')]\<rparr>) \<and>
   GenerateOPABundle fullDiskEnv noMappings noRules [] [] [] ''package authz'' ''r2''
     ([], None) ([], None) ([], None) published =
     (Some (Error ''no space left on device''),
      published\<lparr>cacheFS := Some [(''.manifest'', ''revision=r2''),
                                  (''authz.rego'', ''package authz''),
                                  (''roles/data.json'', ''{}''), (''bindings/data.json'', ''{}''),
                                  (''exemptions/data.json'', ''{}'')],
                 disk := disk published\<rparr>)"
proof -
  let ?B = "bundleFiles noMappings noRules [] [] [] ''package authz'' ''r2'' [] [] []"
  let ?two = "[(''.manifest'', ''revision=r2''), (''authz.rego'', ''package authz'')]"
  let ?all = "[(''.manifest'', ''revision=r2''), (''authz.rego'', ''package authz''),
               (''roles/data.json'', ''{}''), (''bindings/data.json'', ''{}''),
               (''exemptions/data.json'', ''{}'')]"
  have c1: "writeFiles noCodecEnv (take 2 ?B) (NewMemMapFs noCodecEnv) = (None, ?two)"
    by (simp add: sample_first_files noCodecEnv_def memEnv_def memMarshal_def)
  have c2: "(case data (?B ! 2) of Bytes c \<Rightarrow> Inr c | Value c \<Rightarrow> MarshalIndent noCodecEnv c) =
            Inl (Error ''json: unsupported value'')"
    by (simp add: sample_roles_file noCodecEnv_def memEnv_def)
  have d1: "writeFiles noDirEnv (take 2 ?B) (NewMemMapFs noDirEnv) = (None, ?two)"
    by (simp add: sample_first_files noDirEnv_def memEnv_def memMarshal_def)
  have d2: "(case data (?B ! 2) of Bytes c \<Rightarrow> Inr c | Value c \<Rightarrow> MarshalIndent noDirEnv c) =
            Inr ''{}'' \<and>
            MkdirAll noDirEnv ?two (Dir noDirEnv (path (?B ! 2))) = (Some (Error ''mkdir failed''), ?two)"
    by (simp add: sample_roles_file noDirEnv_def memEnv_def memMarshal_def)
  have w1: "writeFiles noWriteEnv (take 2 ?B) (NewMemMapFs noWriteEnv) = (None, ?two)"
    by (simp add: sample_first_files noWriteEnv_def memEnv_def memMarshal_def)
  have w2: "(case data (?B ! 2) of Bytes c \<Rightarrow> Inr c | Value c \<Rightarrow> MarshalIndent noWriteEnv c) =
            Inr ''{}'' \<and>
            MkdirAll noWriteEnv ?two (Dir noWriteEnv (path (?B ! 2))) = (None, ?two) \<and>
            WriteFile noWriteEnv ?two (path (?B ! 2)) ''{}'' = (Some (Error ''write failed''), ?two)"
    by (simp add: sample_roles_file noWriteEnv_def memEnv_def memMarshal_def)
  have t1: "writeFiles fullDiskEnv ?B (NewMemMapFs fullDiskEnv) = (None, ?all)"
    by (simp add: bundleFiles_def memEnv_def fullDiskEnv_def memMarshal_def
        generateOPAManifest_def generateOPAPolicy_def path_consts)
  have t2: "Tar fullDiskEnv ?all (Join fullDiskEnv (DataPath fullDiskEnv) ''bundle.tar.gz'')
              (disk published) = (Some (Error ''no space left on device''), disk published)"
    by (simp add: fullDiskEnv_def)
  note T = failed_compile_leaves_new_files
  from T [where env = noCodecEnv and pre = "take 2 ?B" and item = "?B ! 2" and post = "drop 3 ?B"
      and fsa = ?two and e = "Error ''json: unsupported value''" and s = published
      and rsErr = None and bsErr = None and psErr = None]
    sample_files_split c1 c2
  have r1: "GenerateOPABundle noCodecEnv noMappings noRules [] [] [] ''package authz'' ''r2''
     ([], None) ([], None) ([], None) published =
     (Some (Error ''json: unsupported value''), published\<lparr>cacheFS := Some ?two\<rparr>)"
    by blast
  from T [where env = noDirEnv and pre = "take 2 ?B" and item = "?B ! 2" and post = "drop 3 ?B"
      and fsa = ?two and fsb = ?two and content = "''{}''" and e = "Error ''mkdir failed''"
      and s = published and rsErr = None and bsErr = None and psErr = None]
    sample_files_split d1 d2
  have r2: "GenerateOPABundle noDirEnv noMappings noRules [] [] [] ''package authz'' ''r2''
     ([], None) ([], None) ([], None) published =
     (Some (Error ''mkdir failed''), published\<lparr>cacheFS := Some ?two\<rparr>)"
    by blast
  from T [where env = noWriteEnv and pre = "take 2 ?B" and item = "?B ! 2" and post = "drop 3 ?B"
      and fsa = ?two and fsb = ?two and fsc = ?two and content = "''{}''"
      and e = "Error ''write failed''"
      and s = published and rsErr = None and bsErr = None and psErr = None]
    sample_files_split w1 w2
  have r3: "GenerateOPABundle noWriteEnv noMappings noRules [] [] [] ''package authz'' ''r2''
     ([], None) ([], None) ([], None) published =
     (Some (Error ''write failed''), published\<lparr>cacheFS := Some ?two\<rparr>)"
    by blast
  from T [where env = fullDiskEnv and getMappings = noMappings and GetRules = noRules
      and publicURLs = "[]" and systemAdminURLs = "[]" and adminURLs = "[]"
      and authz = "''package authz''" and revision = "''r2''" and rs = "[]" and bs = "[]"
      and ps = "[]" and fs = ?all and e = "Error ''no space left on device''"
      and d = "disk published" and s = published
      and rsErr = None and bsErr = None and psErr = None]
    t1 t2
  have r4: "GenerateOPABundle fullDiskEnv noMappings noRules [] [] [] ''package authz'' ''r2''
     ([], None) ([], None) ([], None) published =
     (Some (Error ''no space left on device''),
      published\<lparr>cacheFS := Some ?all, disk := disk published\<rparr>)"
    by blast
  from r1 r2 r3 r4 show ?thesis by (intro conjI)
qed

subsection \<open>C2: what \<open>Registered\<close> holds\<close>

text \<open>
  C2 fails as stated. With one public URL and nothing else, \<open>Public\<close> holds a rule and \<open>Registered\<close> is
  empty: the compiler fills \<open>Registered\<close> from the expansion table and from \<open>adminURLs\<close>,
  never from \<open>publicURLs\<close> or \<open>systemAdminURLs\<close>.
\<close>

theorem public_not_registered:
  "Public (generateOPAExemptionURLs noMappings healthURLs [] [] []) =
     [\<lparr>Method = ''GET'', Endpoint = ''/api/health''\<rparr>] \<and>
   Registered (generateOPAExemptionURLs noMappings healthURLs [] [] []) = []"
  by (simp add: generateOPAExemptionURLs_def Let_def urlRules_eq endpointRules_eq setMethods_def
      tableRules_eq noMappings_def healthURLs_def sort_Sort_def string_consts)

text \<open>
  C2, as amended. For every policy list and all URL tables, \<open>Registered\<close> holds exactly
  the rules of the Rule Expansion Table built from the policies and the rules that
  \<open>adminURLs\<close> expands to, each as often as it occurs there; \<open>Public\<close> and \<open>Privileged\<close>
  are the sorted expansions of \<open>publicURLs\<close> and of \<open>systemAdminURLs\<close> and are not
  added to \<open>Registered\<close>.
\<close>

theorem registered_is_table_and_adminURLs:
  "mset (Registered (generateOPAExemptionURLs getMappings publicURLs systemAdminURLs adminURLs policies)) =
     mset (tableRules (getMappings policies)) + mset (urlRules adminURLs) \<and>
   Public (generateOPAExemptionURLs getMappings publicURLs systemAdminURLs adminURLs policies) =
     sort_Sort rules_Less (urlRules publicURLs) \<and>
   Privileged (generateOPAExemptionURLs getMappings publicURLs systemAdminURLs adminURLs policies) =
     sort_Sort rules_Less (urlRules systemAdminURLs)"
  by (simp add: mset_Registered) (simp add: generateOPAExemptionURLs_def Let_def)

subsection \<open>C3: permuting the inputs\<close>

text \<open>
  C3. For any permutation of the Role, RoleBinding and Policy lists the compiled outputs
  of \<open>generateOPARoles\<close>, \<open>generateOPARoleBindings\<close> and \<open>generateOPAExemptionURLs\<close> are
  the same values, hence serialised to the same bytes. The stored roles have distinct
  (namespace, name) pairs, as the data model of the spec has it; the Rule Expansion
  Table is the one modelled from the spec.
\<close>

theorem permutation_invariance:
  assumes "mset roles' = mset roles" and "mset rbs' = mset rbs" and "mset policies' = mset policies"
    and "distinct (map (\<lambda>ro. (Role.Namespace ro, Role.Name ro)) roles)"
  shows "fst (generateOPARoles getResourceActionMappings resourceActionMappings_GetRules
                roles' policies') =
         fst (generateOPARoles getResourceActionMappings resourceActionMappings_GetRules
                roles policies) \<and>
         generateOPARoleBindings rbs' = generateOPARoleBindings rbs \<and>
         generateOPAExemptionURLs getResourceActionMappings publicURLs systemAdminURLs adminURLs
           policies' =
         generateOPAExemptionURLs getResourceActionMappings publicURLs systemAdminURLs adminURLs
           policies"
proof (intro conjI)
  show "fst (generateOPARoles getResourceActionMappings resourceActionMappings_GetRules
                roles' policies') =
         fst (generateOPARoles getResourceActionMappings resourceActionMappings_GetRules
                roles policies)"
    using assms(1,4) by (rule generateOPARoles_mset) (rule mset_GetRules_perm [OF assms(3)])
  show "generateOPARoleBindings rbs' = generateOPARoleBindings rbs"
    using assms(2) by (rule generateOPARoleBindings_mset)
  show "generateOPAExemptionURLs getResourceActionMappings publicURLs systemAdminURLs adminURLs
           policies' =
         generateOPAExemptionURLs getResourceActionMappings publicURLs systemAdminURLs adminURLs
           policies"
    using mset_tableRules_perm [OF assms(3)] by (rule generateOPAExemptionURLs_mset)
qed

theorem permutation_invariance_witness:
  "fst (generateOPARoles getResourceActionMappings resourceActionMappings_GetRules
          [viewer, tester] (rev storedPolicies)) =
   fst (generateOPARoles getResourceActionMappings resourceActionMappings_GetRules
          [tester, viewer] storedPolicies) \<and>
   generateOPARoleBindings [groupBinding, mixedBinding] =
   generateOPARoleBindings [mixedBinding, groupBinding] \<and>
   generateOPAExemptionURLs getResourceActionMappings healthURLs [] starGetURLs
     (rev storedPolicies) =
   generateOPAExemptionURLs getResourceActionMappings healthURLs [] starGetURLs storedPolicies \<and>
   Roles (fst (generateOPARoles getResourceActionMappings resourceActionMappings_GetRules
                 [viewer, tester] (rev storedPolicies))) =
     [\<lparr>role.Name = ''tester'', role.Namespace = ''proj1'',
       role.Rules = [\<lparr>Method = ''GET'', Endpoint = ''/api/reports''\<rparr>,
                     \<lparr>Method = ''GET'', Endpoint = ''/api/tests''\<rparr>]\<rparr>,
      \<lparr>role.Name = ''viewer'', role.Namespace = ''proj1'',
       role.Rules = [\<lparr>Method = ''DELETE'', Endpoint = ''/api/builds''\<rparr>,
                     \<lparr>Method = ''GET'', Endpoint = ''/api/builds''\<rparr>,
                     \<lparr>Method = ''PATCH'', Endpoint = ''/api/builds''\<rparr>,
                     \<lparr>Method = ''POST'', Endpoint = ''/api/builds''\<rparr>,
                     \<lparr>Method = ''PUT'', Endpoint = ''/api/builds''\<rparr>]\<rparr>]"
proof -
  have r: "mset [viewer, tester] = mset [tester, viewer]"
    by simp
  have b: "mset [groupBinding, mixedBinding] = mset [mixedBinding, groupBinding]"
    by simp
  have p: "mset (rev storedPolicies) = mset storedPolicies"
    by simp
  have k: "distinct (map (\<lambda>ro. (Role.Namespace ro, Role.Name ro)) [tester, viewer])"
    by (simp add: tester_def viewer_def)
  note t = permutation_invariance [OF r b p k, of healthURLs "[]" starGetURLs]
  from t have "Roles (fst (generateOPARoles getResourceActionMappings
      resourceActionMappings_GetRules [viewer, tester] (rev storedPolicies))) =
      Roles (fst (generateOPARoles getResourceActionMappings
      resourceActionMappings_GetRules [tester, viewer] storedPolicies))"
    by simp
  with t show ?thesis
    by (simp only: compile_with_table opaRoles.simps simp_thms)
qed

subsection \<open>C4: compiled roles are sorted; equal rules are kept\<close>

text \<open>
  C4 fails as stated. The role \<open>overlapping\<close> grants \<open>GET /api/builds\<close> by two of its rules; the compiled role
  holds that rule twice. Nothing in \<open>generateOPARoles\<close> removes a duplicate.
\<close>

theorem rules_not_deduplicated:
  "Roles (fst (generateOPARoles noMappings noRules [overlapping] [])) = [overlappingCompiled] \<and>
   \<not> distinct (role.Rules overlappingCompiled)"
  using compile_overlapping by (simp add: overlappingCompiled_def)

text \<open>
  C4, as amended. For every role list, policy list and expansion table, the rules of each
  compiled role are sorted by (endpoint, then method) and the compiled roles are sorted
  by (namespace, then name). Rules are not deduplicated: the compiled role of a stored
  role holds every rule that the role's rules expand to, as often as they yield it.
\<close>

theorem compiled_roles_sorted:
  "(\<forall>cr \<in> set (Roles (fst (generateOPARoles getMappings GetRules roles policies))).
      sorted (map rule_key (role.Rules cr))) \<and>
   sorted (map role_key (Roles (fst (generateOPARoles getMappings GetRules roles policies)))) \<and>
   (\<forall>ro \<in> set roles.
      \<exists>cr \<in> set (Roles (fst (generateOPARoles getMappings GetRules roles policies))).
        role.Name cr = Role.Name ro \<and> role.Namespace cr = Role.Namespace ro \<and>
        mset (role.Rules cr) =
          mset (concat (map (\<lambda>r. fst (ruleRules (GetRules (getMappings policies)) r)) (Role.Rules ro))))"
proof (intro conjI ballI)
  fix cr
  assume "cr \<in> set (Roles (fst (generateOPARoles getMappings GetRules roles policies)))"
  then obtain ro where "cr = fst (compileRole (GetRules (getMappings policies)) ro)"
    unfolding set_Roles_generateOPARoles by blast
  then show "sorted (map rule_key (role.Rules cr))"
    by (simp add: compileRole_eq sort_Sort_rules)
next
  show "sorted (map role_key (Roles (fst (generateOPARoles getMappings GetRules roles policies))))"
    by (simp add: generateOPARoles_eq sort_Sort_roles)
next
  fix ro
  assume "ro \<in> set roles"
  then have "fst (compileRole (GetRules (getMappings policies)) ro)
             \<in> set (Roles (fst (generateOPARoles getMappings GetRules roles policies)))"
    unfolding set_Roles_generateOPARoles by blast
  then show "\<exists>cr \<in> set (Roles (fst (generateOPARoles getMappings GetRules roles policies))).
        role.Name cr = Role.Name ro \<and> role.Namespace cr = Role.Namespace ro \<and>
        mset (role.Rules cr) =
          mset (concat (map (\<lambda>r. fst (ruleRules (GetRules (getMappings policies)) r)) (Role.Rules ro)))"
    by (rule bexI [rotated]) (simp add: compileRole_eq mset_sort_Sort)
qed

theorem compiled_roles_sorted_witness:
  "overlappingCompiled \<in> set (Roles (fst (generateOPARoles noMappings noRules [overlapping] []))) \<and>
   sorted (map rule_key (role.Rules overlappingCompiled)) \<and>
   sorted (map role_key (Roles (fst (generateOPARoles noMappings noRules [overlapping] [])))) \<and>
   overlapping \<in> set [overlapping] \<and>
   size (mset (role.Rules overlappingCompiled)) = 6"
proof -
  have mem: "overlappingCompiled \<in> set (Roles (fst (generateOPARoles noMappings noRules [overlapping] [])))"
    by (simp add: compile_overlapping)
  from compiled_roles_sorted [of noMappings noRules "[overlapping]" "[]"] mem
  show ?thesis by (auto simp: overlappingCompiled_def)
qed

subsection \<open>C5: a wildcard rule on one endpoint\<close>

text \<open>
  C5. A role whose one rule has kind \<open>EndpointKind\<close>, resources \<open>["/api/builds"]\<close> and verbs
  \<open>["*"]\<close> is compiled to a role of the same name and namespace with exactly five
  rules, one per method of \<open>AllMethods\<close> on \<open>/api/builds\<close>, ordered by method: the
  compiled role is in the output whatever the other roles, the policies and the
  expansion table are.
\<close>

theorem wildcard_role_compiled:
  assumes "ro \<in> set roles"
    and "Role.Rules ro = [\<lparr>Verbs = [''*''], Resources = [''/api/builds''], Kind = KindEndpoint\<rparr>]"
  shows "\<lparr>role.Name = Role.Name ro, role.Namespace = Role.Namespace ro,
          role.Rules =
            [\<lparr>Method = ''DELETE'', Endpoint = ''/api/builds''\<rparr>,
             \<lparr>Method = ''GET'', Endpoint = ''/api/builds''\<rparr>,
             \<lparr>Method = ''PATCH'', Endpoint = ''/api/builds''\<rparr>,
             \<lparr>Method = ''POST'', Endpoint = ''/api/builds''\<rparr>,
             \<lparr>Method = ''PUT'', Endpoint = ''/api/builds''\<rparr>]\<rparr>
         \<in> set (Roles (fst (generateOPARoles getMappings GetRules roles policies)))"
proof -
  have "fst (compileRole (GetRules (getMappings policies)) ro) =
        \<lparr>role.Name = Role.Name ro, role.Namespace = Role.Namespace ro,
          role.Rules = sort_Sort rules_Less (endpointRules AllMethods [''/api/builds''])\<rparr>"
    using assms(2) by (simp add: compileRole_eq ruleRules_def setVerbs_def MethodAll_def Let_def)
  with assms(1) show ?thesis
    unfolding set_Roles_generateOPARoles wildcard_rules_sorted by force
qed

theorem wildcard_role_compiled_witness:
  "\<lparr>role.Name = ''viewer'', role.Namespace = ''proj1'',
          role.Rules =
            [\<lparr>Method = ''DELETE'', Endpoint = ''/api/builds''\<rparr>,
             \<lparr>Method = ''GET'', Endpoint = ''/api/builds''\<rparr>,
             \<lparr>Method = ''PATCH'', Endpoint = ''/api/builds''\<rparr>,
             \<lparr>Method = ''POST'', Endpoint = ''/api/builds''\<rparr>,
             \<lparr>Method = ''PUT'', Endpoint = ''/api/builds''\<rparr>]\<rparr>
         \<in> set (Roles (fst (generateOPARoles noMappings noRules [viewer] [])))"
  using wildcard_role_compiled [of viewer "[viewer]" noMappings noRules "[]"]
  by (simp add: viewer_def)

subsection \<open>C6: subjects that are not users\<close>

text \<open>
  C6. For every RoleBinding list: a binding all of whose subjects are of another kind than
  \<open>User\<close> contributes nothing, the output is that of the list without it; a binding
  contributes what its \<open>User\<close> subjects alone contribute. No entry of the output is empty,
  every role reference of an entry for a UID in a namespace is granted by a binding of
  that namespace to a \<open>User\<close> subject with that UID, and every \<open>User\<close> subject of a
  binding finds the binding's role reference in the entry of its UID.
\<close>

theorem subject_filtering:
  "((\<forall>s \<in> set (Subjects rb). Subject.Kind s \<noteq> UserKind) \<longrightarrow>
      generateOPARoleBindings (pre @ rb # post) = generateOPARoleBindings (pre @ post)) \<and>
   generateOPARoleBindings (pre @ rb # post) =
     generateOPARoleBindings
       (pre @ rb\<lparr>Subjects := filter (\<lambda>s. Subject.Kind s = UserKind) (Subjects rb)\<rparr> # post) \<and>
   (\<forall>e \<in> set (RoleBindings (generateOPARoleBindings rbs)).
      Bindings e \<noteq> [] \<and>
      (\<forall>b \<in> set (Bindings e). RoleRefs b \<noteq> [] \<and>
         (\<forall>ref \<in> set (RoleRefs b). \<exists>rb \<in> set rbs. \<exists>s \<in> set (Subjects rb).
            Subject.Kind s = UserKind \<and> Subject.UID s = roleBinding.UID e \<and>
            RoleBinding.Namespace rb = binding.Namespace b \<and> ref = refOf rb))) \<and>
   (\<forall>rb \<in> set rbs. \<forall>s \<in> set (Subjects rb). Subject.Kind s = UserKind \<longrightarrow>
      (\<exists>e \<in> set (RoleBindings (generateOPARoleBindings rbs)).
         roleBinding.UID e = Subject.UID s \<and>
         (\<exists>b \<in> set (Bindings e). binding.Namespace b = RoleBinding.Namespace rb \<and>
            refOf rb \<in> set (RoleRefs b))))"
proof (intro conjI impI ballI)
  assume "\<forall>s \<in> set (Subjects rb). Subject.Kind s \<noteq> UserKind"
  then show "generateOPARoleBindings (pre @ rb # post) = generateOPARoleBindings (pre @ post)"
    by (simp add: generateOPARoleBindings_def collect_skips_non_user)
next
  show "generateOPARoleBindings (pre @ rb # post) =
     generateOPARoleBindings
       (pre @ rb\<lparr>Subjects := filter (\<lambda>s. Subject.Kind s = UserKind) (Subjects rb)\<rparr> # post)"
    by (simp add: generateOPARoleBindings_def collect_filters_subjects)
next
  fix e
  assume "e \<in> set (RoleBindings (generateOPARoleBindings rbs))"
  then show "Bindings e \<noteq> []"
    using entries_from_user_subjects by blast
next
  fix e b
  assume "e \<in> set (RoleBindings (generateOPARoleBindings rbs))" "b \<in> set (Bindings e)"
  then show "RoleRefs b \<noteq> []"
    using entries_from_user_subjects by blast
next
  fix e b ref
  assume "e \<in> set (RoleBindings (generateOPARoleBindings rbs))" "b \<in> set (Bindings e)"
    "ref \<in> set (RoleRefs b)"
  then show "\<exists>rb \<in> set rbs. \<exists>s \<in> set (Subjects rb).
            Subject.Kind s = UserKind \<and> Subject.UID s = roleBinding.UID e \<and>
            RoleBinding.Namespace rb = binding.Namespace b \<and> ref = refOf rb"
    using entries_from_user_subjects by blast
next
  fix rb s
  assume "rb \<in> set rbs" "s \<in> set (Subjects rb)" "Subject.Kind s = UserKind"
  then show "\<exists>e \<in> set (RoleBindings (generateOPARoleBindings rbs)).
         roleBinding.UID e = Subject.UID s \<and>
         (\<exists>b \<in> set (Bindings e). binding.Namespace b = RoleBinding.Namespace rb \<and>
            refOf rb \<in> set (RoleRefs b))"
    by (rule user_subject_has_entry)
qed

theorem subject_filtering_witness:
  "generateOPARoleBindings [mixedBinding, groupBinding] = generateOPARoleBindings [mixedBinding] \<and>
   generateOPARoleBindings [mixedBinding, groupBinding] =
     generateOPARoleBindings
       [mixedBinding\<lparr>Subjects := [\<lparr>Subject.Kind = UserKind, UID = ''u1''\<rparr>]\<rparr>, groupBinding] \<and>
   RoleBindings (generateOPARoleBindings [mixedBinding, groupBinding]) =
      [\<lparr>roleBinding.UID = ''u1'',
        Bindings = [\<lparr>binding.Namespace = ''proj1'',
                     RoleRefs = [\<lparr>roleRef.Name = ''viewer'', roleRef.Namespace = ''proj1''\<rparr>]\<rparr>]\<rparr>] \<and>
   (\<exists>e \<in> set (RoleBindings (generateOPARoleBindings [mixedBinding, groupBinding])).
      roleBinding.UID e = ''u1'' \<and>
      (\<exists>b \<in> set (Bindings e). binding.Namespace b = ''proj1'' \<and>
         \<lparr>roleRef.Name = ''viewer'', roleRef.Namespace = ''proj1''\<rparr> \<in> set (RoleRefs b)))"
proof -
  have g: "\<forall>s \<in> set (Subjects groupBinding). Subject.Kind s \<noteq> UserKind"
    by (simp add: groupBinding_def)
  have f: "filter (\<lambda>s. Subject.Kind s = UserKind) (Subjects mixedBinding) =
           [\<lparr>Subject.Kind = UserKind, UID = ''u1''\<rparr>]"
    by (simp add: mixedBinding_def)
  have u: "\<lparr>Subject.Kind = UserKind, UID = ''u1''\<rparr> \<in> set (Subjects mixedBinding)"
    by (simp add: mixedBinding_def)
  note t1 = subject_filtering [where pre = "[mixedBinding]" and rb = groupBinding and post = "[]"
    and rbs = "[mixedBinding, groupBinding]"]
  note t2 = subject_filtering [where pre = "[]" and rb = mixedBinding and post = "[groupBinding]"
    and rbs = "[mixedBinding, groupBinding]"]
  from t1 g have c1: "generateOPARoleBindings [mixedBinding, groupBinding] =
      generateOPARoleBindings [mixedBinding]"
    by simp
  from t2 f have c2: "generateOPARoleBindings [mixedBinding, groupBinding] =
     generateOPARoleBindings
       [mixedBinding\<lparr>Subjects := [\<lparr>Subject.Kind = UserKind, UID = ''u1''\<rparr>]\<rparr>, groupBinding]"
    by simp
  have "mixedBinding \<in> set [mixedBinding, groupBinding]" by simp
  from t1 [THEN conjunct2, THEN conjunct2, THEN conjunct2, THEN bspec, OF this, THEN bspec, OF u]
  have c4: "\<exists>e \<in> set (RoleBindings (generateOPARoleBindings [mixedBinding, groupBinding])).
      roleBinding.UID e = ''u1'' \<and>
      (\<exists>b \<in> set (Bindings e). binding.Namespace b = ''proj1'' \<and>
         \<lparr>roleRef.Name = ''viewer'', roleRef.Namespace = ''proj1''\<rparr> \<in> set (RoleRefs b))"
    by (simp add: mixedBinding_def refOf_def)
  have c3: "RoleBindings (generateOPARoleBindings [mixedBinding, groupBinding]) =
      [\<lparr>roleBinding.UID = ''u1'',
        Bindings = [\<lparr>binding.Namespace = ''proj1'',
                     RoleRefs = [\<lparr>roleRef.Name = ''viewer'', roleRef.Namespace = ''proj1''\<rparr>]\<rparr>]\<rparr>]"
    by (simp add: compile_mixed)
  from c1 c2 c3 c4 show ?thesis
    by (intro conjI)
qed

subsection \<open>C7: the conditional request\<close>

text \<open>
  C7 fails as stated. Revision \<open>r1\<close> is published and its archive is in the data
  directory. A request for the bundle with \<open>If-None-Match: *\<close> carries a value other than
  the revision: the handler sets \<open>Etag\<close> and calls \<open>c.File\<close>, and the file server answers
  that precondition with 304, not with 200.
\<close>

theorem other_value_not_200:
  "GetRevision memEnv published = Inr ''r1'' \<and>
   GetHeader (conditionalRequest ''*'') ''If-None-Match'' = ''*'' \<and>
   map_sum id status (DownloadBundle memEnv memServeFile published (conditionalRequest ''*'')) =
     Inr 304"
proof -
  have d: "disk published =
      [(''/data/bundle.tar.gz'',
        [(''.manifest'', ''revision=r1''), (''authz.rego'', ''package authz''),
         (''roles/data.json'', ''{}''), (''bindings/data.json'', ''{}''),
         (''exemptions/data.json'', ''{}'')])]"
    by (simp add: published_eq)
  have j: "Join memEnv (DataPath memEnv) ''bundle.tar.gz'' = ''/data/bundle.tar.gz''"
    by (simp add: memEnv_def)
  show ?thesis
    by (simp add: DownloadBundle_def GetRevision_published File_def Header_def GetHeader_def
        Param_def Status_def memServeFile_def d j conditionalRequest_def plainRequest_def Let_def)
qed

text \<open>
  C7, as amended. For every request to \<open>DownloadBundle\<close> while a revision is published
  (\<open>GetRevision\<close> returns a revision that is not empty): if \<open>If-None-Match\<close> equals the
  revision, the response is 304 with no body and no header set. For any other value the
  handler sets \<open>Content-Type: application/gzip\<close> and \<open>Etag\<close> to the revision and hands
  the file of the requested name in the data directory to the file server; the
  response, its status included, is what the file server makes of that.
\<close>

theorem conditional_get:
  assumes "GetRevision env s = Inr revision" and "revision \<noteq> ''''"
  shows "(GetHeader c ''If-None-Match'' = revision \<longrightarrow>
            DownloadBundle env ServeFile s c = Inr (c\<lparr>status := 304\<rparr>)) \<and>
         (GetHeader c ''If-None-Match'' \<noteq> revision \<longrightarrow>
            DownloadBundle env ServeFile s c =
              Inr (ServeFile (disk s)
                     (c\<lparr>header := (header c)(''Content-Type'' \<mapsto> ''application/gzip'',
                                               ''Etag'' \<mapsto> revision)\<rparr>)
                     (Join env (DataPath env) (Param c ''name''))))"
  using assms
  by (auto simp: DownloadBundle_def GetHeader_def Param_def Header_def File_def Status_def Let_def)

theorem conditional_get_witness:
  "DownloadBundle memEnv memServeFile published (conditionalRequest ''r1'') =
     Inr ((conditionalRequest ''r1'')\<lparr>status := 304\<rparr>) \<and>
   map_sum id (\<lambda>c. (status c, header c ''Etag'', servedFile c))
     (DownloadBundle memEnv memServeFile published (conditionalRequest ''r0'')) =
     Inr (200, Some ''r1'', Some ''/data/bundle.tar.gz'')"
proof -
  have r: "''r1'' \<noteq> ''''" by simp
  show ?thesis
    using conditional_get [OF GetRevision_published r, of "conditionalRequest ''r1''" memServeFile]
      conditional_get [OF GetRevision_published r, of "conditionalRequest ''r0''" memServeFile]
    by (simp add: conditionalRequest_def plainRequest_def GetHeader_def Param_def memEnv_def
        memServeFile_def published_eq)
qed

subsection \<open>C8: \<open>GetRevision\<close> and the manifest\<close>

text \<open>
  Once \<open>save\<close> has assigned \<open>cacheFS\<close>, \<open>GetRevision\<close> returns the empty string whenever
  the manifest cannot be read or parsed (\<open>GetRevision_soft\<close>).

  C8. The claim is that \<open>GetRevision\<close> returns the empty string, and neither an error
  nor a crash, in every state. Before the first compile \<open>cacheFS\<close> is nil, no manifest
  exists, and \<open>GetRevision\<close> panics.
\<close>

theorem GetRevision_before_first_compile:
  "GetRevision env \<lparr>cacheFS = None, disk = d\<rparr> = Inl NilPointerDereference"
  by (simp add: GetRevision_def)

subsection \<open>C9: what a compile does to the stored roles\<close>

text \<open>
  C9 fails as stated. On the role \<open>viewer\<close> the compile returns the role with the verbs of its rule
  overwritten by \<open>AllMethods\<close>: the stored role is not what it was before the call.
\<close>

theorem wildcard_verbs_overwritten:
  "snd (generateOPARoles noMappings noRules [viewer] []) =
     [\<lparr>Role.Name = ''viewer'', Role.Namespace = ''proj1'',
       Role.Rules = [\<lparr>Verbs = [''GET'', ''POST'', ''PUT'', ''PATCH'', ''DELETE''],
                      Resources = [''/api/builds''], Kind = KindEndpoint\<rparr>]\<rparr>] \<and>
   snd (generateOPARoles noMappings noRules [viewer] []) \<noteq> [viewer]"
  by (simp add: generateOPARoles_eq compileRole_eq ruleRules_def setVerbs_def viewer_def
      string_consts Let_def)

text \<open>
  C9, as amended. After \<open>generateOPARoles\<close> every stored role is as before, except that in
  each of its rules of another kind than \<open>KindResource\<close> whose verbs are exactly \<open>["*"]\<close>
  the verbs are \<open>AllMethods\<close>. A role list without such a rule is left unchanged.
\<close>

theorem stored_roles_after_compile:
  "snd (generateOPARoles getMappings GetRules roles policies) =
     map (\<lambda>ro. ro\<lparr>Role.Rules :=
                     map (\<lambda>r. if Rule.Kind r \<noteq> KindResource \<and> Verbs r = [MethodAll]
                              then r\<lparr>Verbs := AllMethods\<rparr> else r)
                         (Role.Rules ro)\<rparr>)
         roles \<and>
   ((\<forall>ro \<in> set roles. \<forall>r \<in> set (Role.Rules ro).
       Rule.Kind r = KindResource \<or> Verbs r \<noteq> [MethodAll]) \<longrightarrow>
    snd (generateOPARoles getMappings GetRules roles policies) = roles)"
proof (intro conjI impI)
  show eq: "snd (generateOPARoles getMappings GetRules roles policies) =
     map (\<lambda>ro. ro\<lparr>Role.Rules :=
                     map (\<lambda>r. if Rule.Kind r \<noteq> KindResource \<and> Verbs r = [MethodAll]
                              then r\<lparr>Verbs := AllMethods\<rparr> else r)
                         (Role.Rules ro)\<rparr>)
         roles"
    by (simp add: generateOPARoles_eq compileRole_eq snd_ruleRules)
  assume a: "\<forall>ro \<in> set roles. \<forall>r \<in> set (Role.Rules ro).
       Rule.Kind r = KindResource \<or> Verbs r \<noteq> [MethodAll]"
  have "map (\<lambda>r. if Rule.Kind r \<noteq> KindResource \<and> Verbs r = [MethodAll]
                              then r\<lparr>Verbs := AllMethods\<rparr> else r) (Role.Rules ro) = Role.Rules ro"
    if "ro \<in> set roles" for ro
    using a that by (intro map_idI) auto
  then have "map (\<lambda>ro. ro\<lparr>Role.Rules :=
                     map (\<lambda>r. if Rule.Kind r \<noteq> KindResource \<and> Verbs r = [MethodAll]
                              then r\<lparr>Verbs := AllMethods\<rparr> else r)
                         (Role.Rules ro)\<rparr>) roles = roles"
    by (intro map_idI) simp
  with eq show "snd (generateOPARoles getMappings GetRules roles policies) = roles"
    by simp
qed

theorem stored_roles_after_compile_witness:
  "snd (generateOPARoles sampleMappings sampleGetRules [tester, devRead] testPolicies) =
     [tester, devRead] \<and>
   snd (generateOPARoles sampleMappings sampleGetRules [viewer] testPolicies) =
     [viewer\<lparr>Role.Rules := [\<lparr>Verbs = AllMethods, Resources = [''/api/builds''], Kind = KindEndpoint\<rparr>]\<rparr>]"
proof -
  have h: "\<forall>ro \<in> set [tester, devRead]. \<forall>r \<in> set (Role.Rules ro).
       Rule.Kind r = KindResource \<or> Verbs r \<noteq> [MethodAll]"
    by (simp add: tester_def devRead_def MethodAll_def)
  from stored_roles_after_compile [of sampleMappings sampleGetRules "[tester, devRead]" testPolicies] h
  have 1: "snd (generateOPARoles sampleMappings sampleGetRules [tester, devRead] testPolicies) =
     [tester, devRead]"
    by blast
  from stored_roles_after_compile [of sampleMappings sampleGetRules "[viewer]" testPolicies]
  have 2: "snd (generateOPARoles sampleMappings sampleGetRules [viewer] testPolicies) =
     [viewer\<lparr>Role.Rules := [\<lparr>Verbs = AllMethods, Resources = [''/api/builds''], Kind = KindEndpoint\<rparr>]\<rparr>]"
    by (simp add: viewer_def MethodAll_def)
  from 1 2 show ?thesis by (intro conjI)
qed

subsection \<open>C10: the wildcard expands only when it stands alone\<close>

text \<open>
  C10. In the endpoint branch of \<open>generateOPARoles\<close> and in the loops of
  \<open>generateOPAExemptionURLs\<close> the verbs are replaced by \<open>AllMethods\<close> exactly when they
  are the one-element list \<open>["*"]\<close>. A rule, or a URL entry, whose verbs hold \<open>*\<close> and are
  not that list is not expanded: it yields its own verbs paired with its endpoints,
  so for each of its endpoints a rule with the literal method \<open>*\<close> is in the compiled
  role, and in the list compiled from the table that holds the entry.
\<close>

theorem wildcard_among_other_verbs:
  "(ro \<in> set roles \<and> r \<in> set (Role.Rules ro) \<and> Rule.Kind r \<noteq> KindResource \<and>
    MethodAll \<in> set (Verbs r) \<and> Verbs r \<noteq> [MethodAll] \<and> e \<in> set (Resources r) \<longrightarrow>
      ruleRules getRules r = (endpointRules (Verbs r) (Resources r), r) \<and>
      (\<exists>cr \<in> set (Roles (fst (generateOPARoles getMappings GetRules roles policies))).
         role.Name cr = Role.Name ro \<and> role.Namespace cr = Role.Namespace ro \<and>
         \<lparr>Method = MethodAll, Endpoint = e\<rparr> \<in> set (role.Rules cr))) \<and>
   (Rule.Kind r \<noteq> KindResource \<and> Verbs r = [MethodAll] \<longrightarrow>
      ruleRules getRules r = (endpointRules AllMethods (Resources r), r\<lparr>Verbs := AllMethods\<rparr>)) \<and>
   (MethodAll \<in> set (Methods pr) \<and> Methods pr \<noteq> [MethodAll] \<and> e \<in> set (Endpoints pr) \<longrightarrow>
      urlRules [pr] = endpointRules (Methods pr) (Endpoints pr) \<and>
      (pr \<in> set publicURLs \<longrightarrow> \<lparr>Method = MethodAll, Endpoint = e\<rparr> \<in> set (Public
         (generateOPAExemptionURLs getMappings publicURLs systemAdminURLs adminURLs policies))) \<and>
      (pr \<in> set systemAdminURLs \<longrightarrow> \<lparr>Method = MethodAll, Endpoint = e\<rparr> \<in> set (Privileged
         (generateOPAExemptionURLs getMappings publicURLs systemAdminURLs adminURLs policies))) \<and>
      (pr \<in> set adminURLs \<longrightarrow> \<lparr>Method = MethodAll, Endpoint = e\<rparr> \<in> set (Registered
         (generateOPAExemptionURLs getMappings publicURLs systemAdminURLs adminURLs policies)))) \<and>
   (Methods pr = [MethodAll] \<longrightarrow> urlRules [pr] = endpointRules AllMethods (Endpoints pr))"
proof (intro conjI impI)
  assume a: "ro \<in> set roles \<and> r \<in> set (Role.Rules ro) \<and> Rule.Kind r \<noteq> KindResource \<and>
    MethodAll \<in> set (Verbs r) \<and> Verbs r \<noteq> [MethodAll] \<and> e \<in> set (Resources r)"
  then show rr: "ruleRules getRules r = (endpointRules (Verbs r) (Resources r), r)"
    by (simp add: ruleRules_def setVerbs_other)
  let ?g = "GetRules (getMappings policies)"
  let ?cr = "fst (compileRole ?g ro)"
  from a have "ruleRules ?g r = (endpointRules (Verbs r) (Resources r), r)"
    by (simp add: ruleRules_def setVerbs_other)
  with a have "\<lparr>Method = MethodAll, Endpoint = e\<rparr> \<in> set (fst (ruleRules ?g r))"
    by (auto simp: set_endpointRules)
  with a have "\<lparr>Method = MethodAll, Endpoint = e\<rparr> \<in> set (role.Rules ?cr)"
    by (auto simp: compileRole_eq set_sort_Sort)
  moreover from a have "?cr \<in> set (Roles (fst (generateOPARoles getMappings GetRules roles policies)))"
    unfolding set_Roles_generateOPARoles by blast
  moreover have "role.Name ?cr = Role.Name ro \<and> role.Namespace ?cr = Role.Namespace ro"
    by (simp add: compileRole_eq)
  ultimately show "\<exists>cr \<in> set (Roles (fst (generateOPARoles getMappings GetRules roles policies))).
         role.Name cr = Role.Name ro \<and> role.Namespace cr = Role.Namespace ro \<and>
         \<lparr>Method = MethodAll, Endpoint = e\<rparr> \<in> set (role.Rules cr)"
    by blast
next
  assume "Rule.Kind r \<noteq> KindResource \<and> Verbs r = [MethodAll]"
  then show "ruleRules getRules r = (endpointRules AllMethods (Resources r), r\<lparr>Verbs := AllMethods\<rparr>)"
    by (simp add: ruleRules_def setVerbs_exact Let_def)
next
  assume "MethodAll \<in> set (Methods pr) \<and> Methods pr \<noteq> [MethodAll] \<and> e \<in> set (Endpoints pr)"
  then show "urlRules [pr] = endpointRules (Methods pr) (Endpoints pr)"
    by (simp add: urlRules_eq setMethods_other)
next
  assume "MethodAll \<in> set (Methods pr) \<and> Methods pr \<noteq> [MethodAll] \<and> e \<in> set (Endpoints pr)"
    and "pr \<in> set publicURLs"
  then show "\<lparr>Method = MethodAll, Endpoint = e\<rparr> \<in> set (Public
         (generateOPAExemptionURLs getMappings publicURLs systemAdminURLs adminURLs policies))"
    by (simp add: generateOPAExemptionURLs_def Let_def set_sort_Sort literal_in_urlRules)
next
  assume "MethodAll \<in> set (Methods pr) \<and> Methods pr \<noteq> [MethodAll] \<and> e \<in> set (Endpoints pr)"
    and "pr \<in> set systemAdminURLs"
  then show "\<lparr>Method = MethodAll, Endpoint = e\<rparr> \<in> set (Privileged
         (generateOPAExemptionURLs getMappings publicURLs systemAdminURLs adminURLs policies))"
    by (simp add: generateOPAExemptionURLs_def Let_def set_sort_Sort literal_in_urlRules)
next
  assume "MethodAll \<in> set (Methods pr) \<and> Methods pr \<noteq> [MethodAll] \<and> e \<in> set (Endpoints pr)"
    and "pr \<in> set adminURLs"
  then show "\<lparr>Method = MethodAll, Endpoint = e\<rparr> \<in> set (Registered
         (generateOPAExemptionURLs getMappings publicURLs systemAdminURLs adminURLs policies))"
    by (simp add: generateOPAExemptionURLs_def Let_def set_sort_Sort literal_in_urlRules)
next
  assume "Methods pr = [MethodAll]"
  then show "urlRules [pr] = endpointRules AllMethods (Endpoints pr)"
    by (simp add: urlRules_eq setMethods_exact)
qed

theorem wildcard_among_other_verbs_witness:
  "ruleRules (noRules []) \<lparr>Verbs = [''*'', ''GET''], Resources = [''/api/builds''], Kind = KindEndpoint\<rparr> =
     ([\<lparr>Method = ''*'', Endpoint = ''/api/builds''\<rparr>, \<lparr>Method = ''GET'', Endpoint = ''/api/builds''\<rparr>],
      \<lparr>Verbs = [''*'', ''GET''], Resources = [''/api/builds''], Kind = KindEndpoint\<rparr>) \<and>
   (\<exists>cr \<in> set (Roles (fst (generateOPARoles noMappings noRules [starGet] []))).
      role.Name cr = ''ops'' \<and> role.Namespace cr = ''proj1'' \<and>
      \<lparr>Method = ''*'', Endpoint = ''/api/builds''\<rparr> \<in> set (role.Rules cr)) \<and>
   fst (ruleRules (noRules []) \<lparr>Verbs = [''*''], Resources = [''/api/builds''], Kind = KindEndpoint\<rparr>) =
     endpointRules AllMethods [''/api/builds''] \<and>
   urlRules starGetURLs =
     [\<lparr>Method = ''*'', Endpoint = ''/api/builds''\<rparr>, \<lparr>Method = ''GET'', Endpoint = ''/api/builds''\<rparr>] \<and>
   \<lparr>Method = ''*'', Endpoint = ''/api/builds''\<rparr> \<in> set (Public
      (generateOPAExemptionURLs noMappings starGetURLs starGetURLs starGetURLs [])) \<and>
   \<lparr>Method = ''*'', Endpoint = ''/api/builds''\<rparr> \<in> set (Privileged
      (generateOPAExemptionURLs noMappings starGetURLs starGetURLs starGetURLs [])) \<and>
   \<lparr>Method = ''*'', Endpoint = ''/api/builds''\<rparr> \<in> set (Registered
      (generateOPAExemptionURLs noMappings starGetURLs starGetURLs starGetURLs [])) \<and>
   urlRules [\<lparr>Methods = [''*''], Endpoints = [''/api/builds'']\<rparr>] =
     endpointRules AllMethods [''/api/builds'']"
  using
    wildcard_among_other_verbs [where ro = starGet and roles = "[starGet]"
      and r = "\<lparr>Verbs = [''*'', ''GET''], Resources = [''/api/builds''], Kind = KindEndpoint\<rparr>"
      and e = "''/api/builds''" and getRules = "noRules []" and getMappings = noMappings
      and GetRules = noRules and policies = "[]"
      and pr = "\<lparr>Methods = [''*'', ''GET''], Endpoints = [''/api/builds'']\<rparr>"
      and publicURLs = starGetURLs and systemAdminURLs = starGetURLs and adminURLs = starGetURLs]
    wildcard_among_other_verbs [where r = "\<lparr>Verbs = [''*''], Resources = [''/api/builds''], Kind = KindEndpoint\<rparr>"
      and getRules = "noRules []" and getMappings = noMappings
      and GetRules = noRules and policies = "[]" and roles = "[]"
      and pr = "\<lparr>Methods = [''*''], Endpoints = [''/api/builds'']\<rparr>"
      and publicURLs = "[]" and systemAdminURLs = "[]" and adminURLs = "[]"]
  by (simp add: starGet_def starGetURLs_def MethodAll_def endpointRules_eq)

end
